theory Spec2Isabelle
  imports Complex_Main "HOL-Library.Sublist" "HOL-Library.Log_Nat"
begin

section \<open>Trip planner service: the itinerary generator\<close>

text \<open>
  A shallow embedding of \<^verbatim>\<open>TripPlannerService\<close> (the mock itinerary generator).

  A JavaScript \<^verbatim>\<open>number\<close> is a binary64 floating-point number. A finite one is a
  rational, so \<open>number\<close> is \<open>rat\<close>, and every addition, multiplication and division
  of the source that yields a cost is followed by \<open>binary64\<close>, the rounding to the
  nearest double with ties to the even significand. Two operations are written without
  it, the quotient of the budget and 8000 and the product of a draw and 4: on doubles
  the rounded operation gives the same day count and the same index (\<open>totalDays_binary64\<close>
  and \<open>binary64_times_four\<close> below). The results of \<^verbatim>\<open>Math.floor\<close> and
  \<^verbatim>\<open>Math.round\<close> are integers and are typed \<open>int\<close>. \<^verbatim>\<open>Math.round\<close> rounds to the
  nearest integer with ties towards plus infinity, which is \<open>round\<close> of HOL
  (\<open>round x = \<lfloor>x + 1/2\<rfloor>\<close>). A \<^verbatim>\<open>Date\<close> is its epoch time in milliseconds.

  Variables of the source whose names are record fields here carry a shorter name:
  \<open>dest\<close> for \<^verbatim>\<open>destination\<close>, \<open>th\<close> for \<^verbatim>\<open>theme\<close>, \<open>expType\<close> for \<^verbatim>\<open>experienceType\<close>,
  \<open>mult\<close> for \<^verbatim>\<open>luxuryMultiplier\<close>, \<open>d\<close> for \<^verbatim>\<open>day\<close>, \<open>acts\<close> for \<^verbatim>\<open>activities\<close>.
\<close>

subsection \<open>Binary64 arithmetic\<close>

type_synonym number = rat

text \<open>Rounding to the nearest integer, a tie going to the even one.\<close>

definition round_half_even :: "rat \<Rightarrow> int" where
  "round_half_even y =
     (let f = \<lfloor>y\<rfloor>; d = y - of_int f
      in if d < 1 / 2 then f else if 1 / 2 < d then f + 1 else if even f then f else f + 1)"

text \<open>
  The binary exponent of a positive rational \<open>x\<close>: the \<open>k\<close> with
  \<open>2 powi k \<le> x < 2 powi (k + 1)\<close>. The difference of the bit lengths of numerator and
  denominator is \<open>k\<close> or \<open>k + 1\<close>.
\<close>

definition ilog2 :: "rat \<Rightarrow> int" where
  "ilog2 x =
     (case quotient_of x of
        (a, b) \<Rightarrow> (let c = bitlen a - bitlen b in if 2 powi c \<le> x then c else c - 1))"

text \<open>
  The double nearest to \<open>x\<close>: doubles with binary exponent \<open>k\<close> are the multiples of
  \<open>2 powi (k - 52)\<close> (53 significant bits), and below \<open>2 powi (- 1022)\<close> the multiples of
  \<open>2 powi (- 1074)\<close> (the subnormal numbers). Two things are outside the model: a result
  of magnitude \<open>2 powi 1024\<close> or more, which is infinite in the source, and the sign of
  zero.
\<close>

definition binary64 :: "rat \<Rightarrow> rat" where
  "binary64 x =
     (if x = 0 then 0
      else (let e = max (ilog2 \<bar>x\<bar> - 52) (- 1074); w = 2 powi e
            in of_int (round_half_even (x / w)) * w))"

text \<open>
  \<^verbatim>\<open>Math.round(x / d)\<close>. A division by zero yields \<^verbatim>\<open>Infinity\<close>, \<^verbatim>\<open>-Infinity\<close> or
  \<^verbatim>\<open>NaN\<close>, which \<^verbatim>\<open>Math.round\<close> returns as it is.
\<close>

datatype rounded = Rounded int | PosInfinity | NegInfinity | NaN

definition round_quotient :: "number \<Rightarrow> number \<Rightarrow> rounded" where
  "round_quotient x d =
     (if d = 0 then (if 0 < x then PosInfinity else if x < 0 then NegInfinity else NaN)
      else Rounded (round (binary64 (x / d))))"

subsection \<open>Data model\<close>

record TripFormData =
  destination :: string
  date :: "int option"
  people :: number
  budget :: number
  experienceType :: number

record Hotel =
  hotel_name :: string
  rating :: number
  pricePerNight :: int
  hotel_description :: string
  amenities :: "string list"

record Activity =
  name :: string
  duration :: string
  cost :: int
  description :: string
  category :: string

record DayPlan =
  day :: int
  theme :: string
  activities :: "Activity list"
  estimatedCost :: number

record TripPlan =
  plan_destination :: string
  totalDays :: int
  totalCost :: number
  costPerPerson :: rounded
  hotels :: "Hotel list"
  dayPlans :: "DayPlan list"
  overview :: string
  tips :: "string list"

text \<open>
  The value of \<^verbatim>\<open>{ success: boolean; data?: TripPlan; error?: string }\<close>: an absent
  optional field is \<open>None\<close>.
\<close>

record GenerateResult =
  success :: bool
  data :: "TripPlan option"
  error :: "string option"

text \<open>
  What a \<^verbatim>\<open>catch\<close> clause can receive: an \<^verbatim>\<open>Error\<close> object with its message, or any
  other thrown value.
\<close>

datatype thrown = Error string | NonError

subsection \<open>The random source\<close>

text \<open>
  \<^verbatim>\<open>Math.random()\<close> returns a number in the half-open interval from 0 to 1. The
  generator is given the sequence of its future results, and threads the number of
  draws consumed so far. The type holds every rational of the interval, the doubles
  among them.
\<close>

typedef unit_draw = "{r :: rat. 0 \<le> r \<and> r < 1}"
  by (rule exI[of _ 0]) simp

setup_lifting type_definition_unit_draw

type_synonym random_source = "nat \<Rightarrow> unit_draw"

definition Math_random :: "random_source \<Rightarrow> nat \<Rightarrow> number \<times> nat" where
  "Math_random rnd n = (Rep_unit_draw (rnd n), Suc n)"

lift_definition draw_zero :: unit_draw is "0"
  by simp

lift_definition draw_half :: unit_draw is "1 / 2"
  by simp

lift_definition draw_high :: unit_draw is "255 / 256"
  by simp

subsection \<open>Number to string\<close>

text \<open>The decimal numeral that a template literal prints for an integer.\<close>

fun nat_toString :: "nat \<Rightarrow> string" where
  "nat_toString n =
     (if n < 10 then [''0123456789'' ! n]
      else nat_toString (n div 10) @ [''0123456789'' ! (n mod 10)])"

declare nat_toString.simps [simp del]

definition int_toString :: "int \<Rightarrow> string" where
  "int_toString i = (if i < 0 then ''-'' @ nat_toString (nat (- i)) else nat_toString (nat i))"

subsection \<open>Activity names, descriptions and categories\<close>

definition activities_table :: "string \<Rightarrow> (string \<times> string list) list" where
  "activities_table dest =
     [(''Arrival & City Exploration'',
        [dest @ '' Walking Tour'',
         ''Historic City Center Visit'',
         ''Local Orientation & Welcome Dinner'',
         ''Sunset Viewpoint Tour'']),
      (''Cultural Heritage Tour'',
        [''Heritage Sites & Monuments'',
         ''Traditional Dance Performance'',
         ''Local Art Gallery Visit'',
         ''Historical Museum Tour'']),
      (''Adventure & Nature'',
        [''Nature Hiking Trail'',
         ''Water Sports Adventure'',
         ''Wildlife Safari Tour'',
         ''Mountain Trekking Experience'']),
      (''Local Cuisine & Markets'',
        [''Street Food Walking Tour'',
         ''Cooking Class Experience'',
         ''Local Market Exploration'',
         ''Wine/Tea Tasting Session''])]"

text \<open>
  \<^verbatim>\<open>activities[theme] || [...]\<close>: the theme's own list, or the four generic names for a
  theme that is not a key of the table. The generator passes the entries of \<open>themes\<close>
  only, none of which names a property that the object literal inherits.
\<close>

definition baseActivities :: "string \<Rightarrow> string \<Rightarrow> string list" where
  "baseActivities dest th =
     (case map_of (activities_table dest) th of
        Some xs \<Rightarrow> xs
      | None \<Rightarrow> [''City Tour'', ''Local Experience'', ''Cultural Visit'', ''Scenic Tour''])"

text \<open>The local \<^verbatim>\<open>activity\<close>: \<^verbatim>\<open>baseActivities[index % baseActivities.length]\<close>.\<close>

definition baseActivity :: "string \<Rightarrow> string \<Rightarrow> nat \<Rightarrow> string" where
  "baseActivity dest th index =
     baseActivities dest th ! (index mod length (baseActivities dest th))"

definition generateActivityName :: "string \<Rightarrow> string \<Rightarrow> nat \<Rightarrow> number \<Rightarrow> string" where
  "generateActivityName dest th index expType =
     (if expType > 75 then ''Private '' @ baseActivity dest th index
      else if expType > 50 then ''Premium '' @ baseActivity dest th index
      else baseActivity dest th index)"

definition generateActivityDescription :: "string \<Rightarrow> number \<Rightarrow> string" where
  "generateActivityDescription th expType =
     (if expType \<le> 25 then
        ''An authentic local experience that offers great value and genuine cultural immersion.''
      else if expType \<le> 50 then
        ''A well-organized experience combining comfort with authentic local culture and history.''
      else if expType \<le> 75 then
        ''A premium experience with expert guides, exclusive access, and luxury amenities.''
      else
        ''An ultra-luxury experience with private access, world-class service, and exclusive perks.'')"

definition categories :: "string list" where
  "categories =
     [''Cultural'', ''Adventure'', ''Food & Drink'', ''Sightseeing'', ''Entertainment'', ''Wellness'']"

definition getActivityCategory :: "string \<Rightarrow> nat \<Rightarrow> string" where
  "getActivityCategory th index = categories ! (index mod length categories)"

subsection \<open>Overview and tips\<close>

definition generateOverview :: "string \<Rightarrow> int \<Rightarrow> number \<Rightarrow> string" where
  "generateOverview dest days expType =
     (let experienceLevel =
        (if expType \<le> 25 then ''budget-friendly adventure''
         else if expType \<le> 50 then ''comfortable exploration''
         else if expType \<le> 75 then ''premium journey''
         else ''luxury expedition'')
      in ''Experience the best of '' @ dest @ '' in this carefully crafted '' @
         int_toString days @ ''-day '' @ experienceLevel @
         ''. From iconic landmarks to hidden gems, this itinerary balances must-see attractions with authentic local experiences.'')"

definition general_tips :: "string \<Rightarrow> string list" where
  "general_tips dest =
     [''Best time to visit '' @ dest @
        '' is during the shoulder season for fewer crowds and better prices.'',
      ''Download offline maps and translation apps before you go for easier navigation.'',
      ''Try to learn a few basic phrases in the local language - locals appreciate the effort!'',
      ''Pack comfortable walking shoes as you'll be doing lots of exploring on foot.'',
      ''Keep digital and physical copies of important documents in separate locations.'']"

definition generateTips :: "string \<Rightarrow> number \<Rightarrow> string list" where
  "generateTips dest expType =
     (let tips0 = general_tips dest;
          tips1 =
            (if expType > 50 then
               tips0 @
                 [''Consider hiring a private guide for personalized insights and skip-the-line access.''] @
                 [''Make restaurant reservations in advance, especially for popular or high-end establishments.'']
             else tips0);
          tips2 =
            (if expType > 75 then
               tips1 @
                 [''Arrange for private airport transfers and concierge services for a seamless experience.'']
             else tips1)
      in tips2)"

subsection \<open>Hotel selection\<close>

definition generateHotels :: "string \<Rightarrow> number \<Rightarrow> number \<Rightarrow> Hotel list" where
  "generateHotels dest expType mult =
     (if expType \<le> 25 then
        [] @ [\<lparr>hotel_name = dest @ '' Backpacker's Haven'',
                rating = 41 / 10,
                pricePerNight = round (binary64 (1500 * mult)),
                hotel_description =
                  ''Clean, comfortable hostel with great social atmosphere and local vibes.'',
                amenities =
                  [''Free WiFi'', ''Shared Kitchen'', ''Common Area'', ''Laundry'', ''24/7 Reception'']\<rparr>]
      else if expType \<le> 50 then
        [] @ [\<lparr>hotel_name = dest @ '' Comfort Inn & Suites'',
                rating = 43 / 10,
                pricePerNight = round (binary64 (3500 * mult)),
                hotel_description =
                  ''Modern hotel offering great value with excellent amenities and service.'',
                amenities =
                  [''Free WiFi'', ''Breakfast'', ''Gym'', ''Pool'', ''Room Service'', ''Parking'']\<rparr>]
      else if expType \<le> 75 then
        [] @ [\<lparr>hotel_name = dest @ '' Premium Resort'',
                rating = 46 / 10,
                pricePerNight = round (binary64 (7500 * mult)),
                hotel_description =
                  ''Upscale resort with premium amenities and exceptional service.'',
                amenities =
                  [''Free WiFi'', ''Spa'', ''Fine Dining'', ''Concierge'', ''Pool'', ''Beach Access'']\<rparr>]
      else
        [] @ [\<lparr>hotel_name = ''The Luxury '' @ dest @ '' Collection'',
                rating = 49 / 10,
                pricePerNight = round (binary64 (15000 * mult)),
                hotel_description =
                  ''Ultra-luxury hotel offering world-class amenities and personalized service.'',
                amenities =
                  [''Butler Service'', ''Private Pool'', ''Michelin Star Dining'', ''Spa'',
                   ''Helicopter Tours'', ''Private Beach'']\<rparr>])"

subsection \<open>Day plans\<close>

definition themes :: "string list" where
  "themes =
     [''Arrival & City Exploration'',
      ''Cultural Heritage Tour'',
      ''Adventure & Nature'',
      ''Local Cuisine & Markets'',
      ''Art & Museums'',
      ''Relaxation & Wellness'',
      ''Shopping & Entertainment'',
      ''Departure & Last Moments'']"

definition durations :: "string list" where
  "durations = [''2 hours'', ''3 hours'', ''Half day'', ''Full day'']"

text \<open>
  The object literal pushed in the inner loop. Its fields are evaluated in order, so the
  draw for the duration comes first and the draw for the cost second. The product of a
  double and 4 is a double (\<open>binary64_times_four\<close> below), so the index of the duration
  needs no rounding.
\<close>

definition newActivity ::
  "random_source \<Rightarrow> string \<Rightarrow> string \<Rightarrow> number \<Rightarrow> number \<Rightarrow> nat \<Rightarrow> nat \<Rightarrow> Activity \<times> nat" where
  "newActivity rnd dest th expType mult i n =
     (let (u1, n1) = Math_random rnd n;
          (u2, n2) = Math_random rnd n1
      in (\<lparr>name = generateActivityName dest th i expType,
           duration = durations ! nat \<lfloor>u1 * 4\<rfloor>,
           cost = round (binary64 (binary64 (500 + binary64 (u2 * 3000)) * mult)),
           description = generateActivityDescription th expType,
           category = getActivityCategory th i\<rparr>, n2))"

text \<open>
  \<^verbatim>\<open>for (let i = 0; i < activityCount; i++) activities.push({...})\<close>, with \<open>cnt\<close>
  for the loop bound.
\<close>

function activityLoop ::
  "random_source \<Rightarrow> string \<Rightarrow> string \<Rightarrow> number \<Rightarrow> number \<Rightarrow> nat \<Rightarrow> nat \<Rightarrow> Activity list \<Rightarrow> nat
     \<Rightarrow> Activity list \<times> nat" where
  "activityLoop rnd dest th expType mult cnt i acts n =
     (if i < cnt then
        (case newActivity rnd dest th expType mult i n of
           (a, n') \<Rightarrow> activityLoop rnd dest th expType mult cnt (Suc i) (acts @ [a]) n')
      else (acts, n))"
  by pat_completeness auto
termination
  by (relation "measure (\<lambda>(rnd, dest, th, expType, mult, cnt, i, acts, n). cnt - i)")
     auto

declare activityLoop.simps [simp del]

text \<open>\<^verbatim>\<open>experienceType <= 25 ? 3 : experienceType <= 75 ? 4 : 5\<close>\<close>

definition activityCount :: "number \<Rightarrow> nat" where
  "activityCount expType = (if expType \<le> 25 then 3 else if expType \<le> 75 then 4 else 5)"

text \<open>The body of the outer loop: one day's plan.\<close>

definition newDayPlan ::
  "random_source \<Rightarrow> string \<Rightarrow> number \<Rightarrow> number \<Rightarrow> int \<Rightarrow> nat \<Rightarrow> DayPlan \<times> nat" where
  "newDayPlan rnd dest expType mult d n =
     (let th = themes ! nat ((d - 1) mod int (length themes));
          (acts, n') = activityLoop rnd dest th expType mult (activityCount expType) 0 [] n;
          est = foldl (\<lambda>sum activity. binary64 (sum + of_int (cost activity))) 0 acts
      in (\<lparr>day = d, theme = th, activities = acts, estimatedCost = est\<rparr>, n'))"

text \<open>\<^verbatim>\<open>for (let day = 1; day <= totalDays; day++) { ...; dayPlans.push({...}) }\<close>\<close>

function dayLoop ::
  "random_source \<Rightarrow> string \<Rightarrow> number \<Rightarrow> number \<Rightarrow> int \<Rightarrow> int \<Rightarrow> DayPlan list \<Rightarrow> nat
     \<Rightarrow> DayPlan list \<times> nat" where
  "dayLoop rnd dest expType mult days d plans n =
     (if d \<le> days then
        (case newDayPlan rnd dest expType mult d n of
           (p, n') \<Rightarrow> dayLoop rnd dest expType mult days (d + 1) (plans @ [p]) n')
      else (plans, n))"
  by pat_completeness auto
termination
  by (relation "measure (\<lambda>(rnd, dest, expType, mult, days, d, plans, n). nat (days + 1 - d))")
     auto

declare dayLoop.simps [simp del]

subsection \<open>The generator\<close>

text \<open>\<^verbatim>\<open>const luxuryMultiplier = 1 + (experienceType / 100)\<close>\<close>

definition luxuryMultiplier :: "number \<Rightarrow> number" where
  "luxuryMultiplier expType = binary64 (1 + binary64 (expType / 100))"

text \<open>
  \<^verbatim>\<open>hotels[0].pricePerNight\<close> throws a \<^verbatim>\<open>TypeError\<close> when \<^verbatim>\<open>hotels\<close> is empty; it is
  the one expression of the generator that can throw (the wording of the message is the
  engine's). The constant \<^verbatim>\<open>budgetPerDay\<close> is computed and never read. The generator
  starts at draw \<open>n\<close> of the random source; the number of draws it consumed is not part
  of its result. The day count takes the floor of the exact quotient: for a budget that
  is a double, the floor of the rounded quotient gives the same day count
  (\<open>totalDays_binary64\<close> below).
\<close>

definition generateMockTripPlan :: "random_source \<Rightarrow> nat \<Rightarrow> TripFormData \<Rightarrow> thrown + TripPlan" where
  "generateMockTripPlan rnd n formData =
     (let dest = destination formData;
          ppl = people formData;
          bud = budget formData;
          expType = experienceType formData;
          days = min (max \<lfloor>bud / 8000\<rfloor> 3) 14;
          budgetPerDay = binary64 (bud / of_int days);
          mult = luxuryMultiplier expType;
          hs = generateHotels dest expType mult;
          (plans, n') = dayLoop rnd dest expType mult days 1 [] n
      in (case hs of
            [] \<Rightarrow> Inl (Error ''Cannot read properties of undefined (reading 'pricePerNight')'')
          | h # _ \<Rightarrow>
              (let total =
                     binary64 (foldl (\<lambda>sum dp. binary64 (sum + estimatedCost dp)) 0 plans +
                               binary64 (of_int (pricePerNight h) * of_int days))
               in Inr \<lparr>plan_destination = dest,
                       totalDays = days,
                       totalCost = total,
                       costPerPerson = round_quotient total ppl,
                       hotels = hs,
                       dayPlans = plans,
                       overview = generateOverview dest days expType,
                       tips = generateTips dest expType\<rparr>)))"

text \<open>
  The public entry point. The simulated delay has no effect on the value returned; the
  \<^verbatim>\<open>try\<close>/\<^verbatim>\<open>catch\<close> turns a thrown value into the error variant.
\<close>

definition generateTripPlan :: "random_source \<Rightarrow> nat \<Rightarrow> TripFormData \<Rightarrow> GenerateResult" where
  "generateTripPlan rnd n formData =
     (case generateMockTripPlan rnd n formData of
        Inr tripPlan \<Rightarrow> \<lparr>success = True, data = Some tripPlan, error = None\<rparr>
      | Inl (Error msg) \<Rightarrow> \<lparr>success = False, data = None, error = Some msg\<rparr>
      | Inl NonError \<Rightarrow> \<lparr>success = False, data = None, error = Some ''Failed to generate trip plan''\<rparr>)"

subsection \<open>The spec's own notions\<close>

text \<open>The spec's clamp of a value into an interval.\<close>

definition clamp_spec :: "int \<Rightarrow> int \<Rightarrow> int \<Rightarrow> int" where
  "clamp_spec x lo hi = (if x < lo then lo else if hi < x then hi else x)"

text \<open>
  The spec's four experience bands, with boundaries at 25, 50 and 75, and their base
  nightly prices.
\<close>

datatype band = BudgetTier | ComfortTier | PremiumTier | LuxuryTier

definition band_spec :: "number \<Rightarrow> band" where
  "band_spec e =
     (if 0 \<le> e \<and> e \<le> 25 then BudgetTier
      else if 25 < e \<and> e \<le> 50 then ComfortTier
      else if 50 < e \<and> e \<le> 75 then PremiumTier
      else LuxuryTier)"

fun basePrice_spec :: "band \<Rightarrow> number" where
  "basePrice_spec BudgetTier = 1500"
| "basePrice_spec ComfortTier = 3500"
| "basePrice_spec PremiumTier = 7500"
| "basePrice_spec LuxuryTier = 15000"

subsection \<open>Concrete inputs\<close>

definition half_source :: random_source where
  "half_source = (\<lambda>n. draw_half)"

definition mixed_source :: random_source where
  "mixed_source = (\<lambda>n. if even n then draw_high else draw_zero)"

definition paris_request :: TripFormData where
  "paris_request =
     \<lparr>destination = ''Paris'', date = None, people = 2, budget = 40000, experienceType = 25\<rparr>"

definition request_at :: "number \<Rightarrow> TripFormData" where
  "request_at e =
     \<lparr>destination = ''Goa'', date = Some 1798761600000, people = 3, budget = 24000,
      experienceType = e\<rparr>"

definition rome_request :: TripFormData where
  "rome_request =
     \<lparr>destination = ''Rome'', date = Some 1798761600000, people = 2, budget = 40000,
      experienceType = 25\<rparr>"

definition paris_dated_request :: TripFormData where
  "paris_dated_request = paris_request\<lparr>date := Some 1798761600000\<rparr>"

text \<open>The plans generated for the concrete requests.\<close>

definition paris_plan :: TripPlan where
  "paris_plan = projr (generateMockTripPlan half_source 0 paris_request)"

definition plan_at :: "number \<Rightarrow> TripPlan" where
  "plan_at e = projr (generateMockTripPlan mixed_source 0 (request_at e))"


section \<open>Properties of binary64 rounding\<close>

subsection \<open>Rounding to an integer and the binary exponent\<close>

lemma round_half_even_of_int: "round_half_even (of_int n) = n"
  by (simp add: round_half_even_def)

lemma round_half_even_floor: "\<lfloor>y\<rfloor> \<le> round_half_even y \<and> round_half_even y \<le> \<lfloor>y\<rfloor> + 1"
  by (simp add: round_half_even_def Let_def)

lemma round_half_even_error: "\<bar>of_int (round_half_even y) - y\<bar> \<le> 1 / 2"
proof -
  have "of_int \<lfloor>y\<rfloor> \<le> y" "y < of_int \<lfloor>y\<rfloor> + 1" by linarith+
  then show ?thesis by (auto simp: round_half_even_def Let_def)
qed

lemma round_half_even_ge: "of_int n \<le> y \<Longrightarrow> n \<le> round_half_even y"
proof -
  assume "of_int n \<le> y"
  then have "n \<le> \<lfloor>y\<rfloor>" by (simp add: le_floor_iff)
  with round_half_even_floor[of y] show ?thesis by linarith
qed

lemma round_half_even_le: "y \<le> of_int n \<Longrightarrow> round_half_even y \<le> n"
proof (cases "y = of_int n")
  case True
  then show ?thesis by (simp add: round_half_even_of_int)
next
  case False
  assume "y \<le> of_int n"
  with False have "y < of_int n" by simp
  then have "\<lfloor>y\<rfloor> < n" by (simp add: floor_less_iff)
  with round_half_even_floor[of y] show ?thesis by linarith
qed

lemma two_powi_pos: "0 < (2::rat) powi k"
  by (simp add: zero_less_power_int)

lemma two_powi_mono: "a \<le> b \<Longrightarrow> (2::rat) powi a \<le> 2 powi b"
  by (rule power_int_increasing) simp_all

lemma two_powi_less_cancel: "(2::rat) powi a < 2 powi b \<Longrightarrow> a < b"
  using two_powi_mono[of b a] by (cases "a < b") simp_all

lemma ilog2_le:
  assumes "0 < x"
  shows "2 powi (ilog2 x) \<le> x"
proof -
  obtain a b where ab: "quotient_of x = (a, b)" by (cases "quotient_of x")
  then have b: "0 < b" and x: "x = of_int a / of_int b"
    using quotient_of_denom_pos quotient_of_div by blast+
  from assms x b have a: "0 < a" by (simp add: zero_less_divide_iff)
  let ?c = "bitlen a - bitlen b"
  show ?thesis
  proof (cases "2 powi ?c \<le> x")
    case True
    then show ?thesis by (simp add: ilog2_def ab Let_def)
  next
    case False
    from bitlen_bounds[OF a] have "2 ^ nat (bitlen a - 1) \<le> a" by simp
    then have "(of_int (2 ^ nat (bitlen a - 1)) :: rat) \<le> of_int a" by (simp only: of_int_le_iff)
    moreover have "1 \<le> bitlen a" using a by (simp add: bitlen_alt_def)
    ultimately have la: "(2::rat) powi (bitlen a - 1) \<le> of_int a"
      by (simp add: power_int_def)
    from bitlen_bounds[OF b] have "b < 2 ^ nat (bitlen b)" by simp
    then have "(of_int b :: rat) < of_int (2 ^ nat (bitlen b))" by (simp only: of_int_less_iff)
    moreover have "0 \<le> bitlen b" by (rule bitlen_nonneg)
    ultimately have ub: "of_int b < (2::rat) powi (bitlen b)"
      by (simp add: power_int_def)
    have "(2::rat) powi (?c - 1) = 2 powi (bitlen a - 1) / 2 powi (bitlen b)"
      by (simp add: power_int_diff)
    also have "\<dots> \<le> of_int a / 2 powi (bitlen b)"
      using la by (simp add: divide_right_mono two_powi_pos less_imp_le)
    also have "\<dots> \<le> of_int a / of_int b"
      using ub a b by (simp add: frac_le)
    finally have "(2::rat) powi (?c - 1) \<le> x" by (simp add: x)
    with False show ?thesis by (simp add: ilog2_def ab Let_def)
  qed
qed

lemma ilog2_gt:
  assumes "0 < x"
  shows "x < 2 powi (ilog2 x + 1)"
proof -
  obtain a b where ab: "quotient_of x = (a, b)" by (cases "quotient_of x")
  then have b: "0 < b" and x: "x = of_int a / of_int b"
    using quotient_of_denom_pos quotient_of_div by blast+
  from assms x b have a: "0 < a" by (simp add: zero_less_divide_iff)
  let ?c = "bitlen a - bitlen b"
  show ?thesis
  proof (cases "2 powi ?c \<le> x")
    case False
    then show ?thesis by (simp add: ilog2_def ab Let_def)
  next
    case True
    from bitlen_bounds[OF a] have "a < 2 ^ nat (bitlen a)" by simp
    then have "(of_int a :: rat) < of_int (2 ^ nat (bitlen a))" by (simp only: of_int_less_iff)
    moreover have "0 \<le> bitlen a" by (rule bitlen_nonneg)
    ultimately have ua: "of_int a < (2::rat) powi (bitlen a)"
      by (simp add: power_int_def)
    from bitlen_bounds[OF b] have "2 ^ nat (bitlen b - 1) \<le> b" by simp
    then have "(of_int (2 ^ nat (bitlen b - 1)) :: rat) \<le> of_int b" by (simp only: of_int_le_iff)
    moreover have "1 \<le> bitlen b" using b by (simp add: bitlen_alt_def)
    ultimately have lb: "(2::rat) powi (bitlen b - 1) \<le> of_int b"
      by (simp add: power_int_def)
    have "of_int a / of_int b < (2::rat) powi (bitlen a) / of_int b"
      using ua b by (simp add: divide_strict_right_mono)
    also have "\<dots> \<le> 2 powi (bitlen a) / 2 powi (bitlen b - 1)"
      using lb by (simp add: frac_le two_powi_pos less_imp_le)
    also have "\<dots> = 2 powi (?c + 1)"
      by (simp add: power_int_diff[symmetric] algebra_simps)
    finally have "x < 2 powi (?c + 1)" by (simp add: x)
    with True show ?thesis by (simp add: ilog2_def ab Let_def)
  qed
qed

subsection \<open>Exact results, bounds and the rounding error\<close>

lemma binary64_zero: "binary64 0 = 0"
  by (simp add: binary64_def)

lemma binary64_unfold:
  assumes "x \<noteq> 0"
  shows "binary64 x =
    of_int (round_half_even (x / 2 powi (max (ilog2 \<bar>x\<bar> - 52) (- 1074)))) *
      2 powi (max (ilog2 \<bar>x\<bar> - 52) (- 1074))"
  using assms by (simp add: binary64_def Let_def)

lemma binary64_exact:
  assumes x: "x = of_int m * 2 powi j" and m: "\<bar>m\<bar> < 2 ^ 53" and j: "- 1074 \<le> j"
  shows "binary64 x = x"
proof (cases "x = 0")
  case True
  then show ?thesis by (simp add: binary64_zero)
next
  case False
  define k where "k = ilog2 \<bar>x\<bar>"
  define e where "e = max (k - 52) (- 1074)"
  from False have pos: "0 < \<bar>x\<bar>" by simp
  have "2 powi k \<le> \<bar>x\<bar>" unfolding k_def by (rule ilog2_le[OF pos])
  also have "\<bar>x\<bar> = of_int \<bar>m\<bar> * 2 powi j"
    by (simp add: x abs_mult two_powi_pos less_imp_le)
  also have "\<dots> < of_int (2 ^ 53) * 2 powi j"
    using m by (intro mult_strict_right_mono two_powi_pos) (simp only: of_int_less_iff)
  also have "\<dots> = 2 powi (53 + j)"
    by (simp add: power_int_add)
  finally have "k < 53 + j" by (rule two_powi_less_cancel)
  with j have e: "e \<le> j" by (simp add: e_def)
  have split: "(2::rat) powi j = 2 powi (j - e) * 2 powi e"
    by (simp add: power_int_add[symmetric])
  have nn: "(2::rat) powi (j - e) = of_int (2 ^ nat (j - e))"
    using e by (simp add: power_int_def)
  have "x / 2 powi e = of_int m * 2 powi (j - e) * 2 powi e / 2 powi e"
    by (simp add: x split[symmetric] mult.assoc)
  also have "\<dots> = of_int m * 2 powi (j - e)"
    by (simp add: power_int_eq_0_iff)
  also have "\<dots> = of_int (m * 2 ^ nat (j - e))"
    by (simp add: nn)
  finally have q: "x / 2 powi e = of_int (m * 2 ^ nat (j - e))" .
  have "binary64 x = of_int (round_half_even (x / 2 powi e)) * 2 powi e"
    unfolding binary64_unfold[OF False] e_def k_def ..
  also have "\<dots> = of_int (m * 2 ^ nat (j - e)) * 2 powi e"
    unfolding q round_half_even_of_int ..
  also have "\<dots> = of_int m * (2 powi (j - e) * 2 powi e)"
    by (simp add: nn)
  also have "\<dots> = x" unfolding split[symmetric] x ..
  finally show ?thesis .
qed

lemma binary64_of_int:
  assumes "\<bar>m\<bar> < 2 ^ 53"
  shows "binary64 (of_int m) = of_int m"
  by (rule binary64_exact[where m = m and j = 0]) (use assms in simp_all)

lemma binary64_half_int:
  assumes "\<bar>m\<bar> < 2 ^ 53"
  shows "binary64 (of_int m / 2) = of_int m / 2"
  by (rule binary64_exact[where m = m and j = "- 1"]) (use assms in simp_all)

lemma binary64_quantum_small:
  assumes "x \<noteq> 0" and "\<bar>x\<bar> < 2 ^ 53"
  shows "max (ilog2 \<bar>x\<bar> - 52) (- 1074) \<le> 0"
proof -
  from assms(1) have pos: "0 < \<bar>x\<bar>" by simp
  have "2 powi (ilog2 \<bar>x\<bar>) \<le> \<bar>x\<bar>" by (rule ilog2_le[OF pos])
  also have "\<bar>x\<bar> < 2 powi 53" using assms(2) by simp
  finally have "ilog2 \<bar>x\<bar> < 53" by (rule two_powi_less_cancel)
  then show ?thesis by simp
qed

lemma binary64_ge_int:
  assumes "of_int a \<le> x" and "\<bar>x\<bar> < 2 ^ 53"
  shows "of_int a \<le> binary64 x"
proof (cases "x = 0")
  case True
  with assms(1) show ?thesis by (simp add: binary64_zero)
next
  case False
  let ?e = "max (ilog2 \<bar>x\<bar> - 52) (- 1074)"
  have e: "?e \<le> 0" by (rule binary64_quantum_small[OF False assms(2)])
  let ?n = "nat (- ?e)"
  have w: "(2::rat) powi ?e = 1 / 2 ^ ?n"
    using e by (simp add: power_int_def inverse_eq_divide power_one_over)
  have "of_int (a * 2 ^ ?n) \<le> x * 2 ^ ?n"
    using assms(1) by (simp add: mult_right_mono)
  then have "a * 2 ^ ?n \<le> round_half_even (x * 2 ^ ?n)" by (rule round_half_even_ge)
  then have "(of_int (a * 2 ^ ?n) :: rat) \<le> of_int (round_half_even (x * 2 ^ ?n))"
    by (simp only: of_int_le_iff)
  then have "of_int a * 2 ^ ?n \<le> (of_int (round_half_even (x * 2 ^ ?n)) :: rat)" by simp
  then have "of_int a \<le> (of_int (round_half_even (x * 2 ^ ?n)) :: rat) / 2 ^ ?n"
    by (simp add: pos_le_divide_eq)
  then show ?thesis unfolding binary64_unfold[OF False] w by simp
qed

lemma binary64_le_int:
  assumes "x \<le> of_int b" and "\<bar>x\<bar> < 2 ^ 53"
  shows "binary64 x \<le> of_int b"
proof (cases "x = 0")
  case True
  with assms(1) show ?thesis by (simp add: binary64_zero)
next
  case False
  let ?e = "max (ilog2 \<bar>x\<bar> - 52) (- 1074)"
  have e: "?e \<le> 0" by (rule binary64_quantum_small[OF False assms(2)])
  let ?n = "nat (- ?e)"
  have w: "(2::rat) powi ?e = 1 / 2 ^ ?n"
    using e by (simp add: power_int_def inverse_eq_divide power_one_over)
  have "x * 2 ^ ?n \<le> of_int (b * 2 ^ ?n)"
    using assms(1) by (simp add: mult_right_mono)
  then have "round_half_even (x * 2 ^ ?n) \<le> b * 2 ^ ?n" by (rule round_half_even_le)
  then have "(of_int (round_half_even (x * 2 ^ ?n)) :: rat) \<le> of_int (b * 2 ^ ?n)"
    by (simp only: of_int_le_iff)
  then have "(of_int (round_half_even (x * 2 ^ ?n)) :: rat) \<le> of_int b * 2 ^ ?n" by simp
  then have "(of_int (round_half_even (x * 2 ^ ?n)) :: rat) / 2 ^ ?n \<le> of_int b"
    by (simp add: pos_divide_le_eq)
  then show ?thesis unfolding binary64_unfold[OF False] w by simp
qed

lemma binary64_error:
  "\<bar>binary64 x - x\<bar> \<le> max (\<bar>x\<bar> / 2 ^ 53) (1 / 2 ^ 1075)"
proof (cases "x = 0")
  case True
  then show ?thesis by (simp add: binary64_zero)
next
  case False
  let ?k = "ilog2 \<bar>x\<bar>"
  let ?e = "max (?k - 52) (- 1074)"
  let ?w = "(2::rat) powi ?e"
  from False have pos: "0 < \<bar>x\<bar>" by simp
  have wpos: "0 < ?w" by (rule two_powi_pos)
  have "binary64 x - x = (of_int (round_half_even (x / ?w)) - x / ?w) * ?w"
    unfolding binary64_unfold[OF False] using wpos by (simp add: algebra_simps)
  then have "\<bar>binary64 x - x\<bar> = \<bar>of_int (round_half_even (x / ?w)) - x / ?w\<bar> * ?w"
    using wpos by (simp add: abs_mult)
  also have "\<dots> \<le> 1 / 2 * ?w"
    using round_half_even_error[of "x / ?w"] wpos by (intro mult_right_mono) simp_all
  finally have err: "\<bar>binary64 x - x\<bar> \<le> ?w / 2" by simp
  have "?w / 2 \<le> max (\<bar>x\<bar> / 2 ^ 53) (1 / 2 ^ 1075)"
  proof (cases "?k - 52 \<le> - 1074")
    case True
    then have "?e = - 1074" by simp
    then have "?w = 1 / 2 ^ 1074" by (simp add: power_int_def inverse_eq_divide power_one_over)
    then have "?w / 2 = 1 / 2 ^ 1075" by simp
    then show ?thesis by simp
  next
    case False
    then have "?e = ?k - 52" by simp
    then have "?w = 2 powi ?k / 2 ^ 52" by (simp add: power_int_diff)
    also have "\<dots> \<le> \<bar>x\<bar> / 2 ^ 52"
      using ilog2_le[OF pos] by (simp add: divide_right_mono)
    finally have "?w / 2 \<le> \<bar>x\<bar> / 2 ^ 53" by simp
    then show ?thesis by simp
  qed
  with err show ?thesis by linarith
qed

lemma binary64_error_ulp:
  assumes "x \<noteq> 0"
  shows "\<bar>binary64 x - x\<bar> \<le> 2 powi (max (ilog2 \<bar>x\<bar> - 52) (- 1074)) / 2"
proof -
  define w :: rat where "w = 2 powi (max (ilog2 \<bar>x\<bar> - 52) (- 1074))"
  have wpos: "0 < w" unfolding w_def by (rule two_powi_pos)
  have "binary64 x - x = (of_int (round_half_even (x / w)) - x / w) * w"
    unfolding binary64_unfold[OF assms] w_def[symmetric] using wpos by (simp add: algebra_simps)
  then have "\<bar>binary64 x - x\<bar> = \<bar>of_int (round_half_even (x / w)) - x / w\<bar> * w"
    using wpos by (simp add: abs_mult)
  also have "\<dots> \<le> 1 / 2 * w"
    using round_half_even_error[of "x / w"] wpos by (intro mult_right_mono) simp_all
  finally show ?thesis by (simp add: w_def)
qed

lemma binary64_error_below:
  assumes "0 < x" and "x < 2 powi n" and "- 1021 \<le> n"
  shows "\<bar>binary64 x - x\<bar> \<le> 2 powi (n - 54)"
proof -
  have "2 powi (ilog2 x) \<le> x" by (rule ilog2_le[OF assms(1)])
  also note assms(2)
  finally have "ilog2 x < n" by (rule two_powi_less_cancel)
  with assms(3) have "max (ilog2 x - 52) (- 1074) \<le> n - 53" by simp
  then have "(2::rat) powi (max (ilog2 x - 52) (- 1074)) \<le> 2 powi (n - 53)"
    by (rule two_powi_mono)
  moreover have "(2::rat) powi (n - 53) / 2 = 2 powi (n - 54)"
    by (simp add: power_int_diff)
  moreover have "\<bar>binary64 x - x\<bar> \<le> 2 powi (max (ilog2 \<bar>x\<bar> - 52) (- 1074)) / 2"
    using assms(1) by (intro binary64_error_ulp) simp
  ultimately show ?thesis using assms(1) by simp
qed

lemma binary64_fixed_repr:
  assumes "binary64 x = x"
  shows "\<exists>m j. x = of_int m * 2 powi j \<and> \<bar>m\<bar> < 2 ^ 53 \<and> - 1074 \<le> j \<and>
           (x \<noteq> 0 \<longrightarrow> ilog2 \<bar>x\<bar> - 52 \<le> j)"
proof (cases "x = 0")
  case True
  then have "x = of_int 0 * 2 powi 0 \<and> \<bar>0::int\<bar> < 2 ^ 53 \<and> - 1074 \<le> (0::int)" by simp
  with True show ?thesis by blast
next
  case False
  define k where "k = ilog2 \<bar>x\<bar>"
  define e where "e = max (k - 52) (- 1074)"
  define M where "M = round_half_even (x / 2 powi e)"
  from False have pos: "0 < \<bar>x\<bar>" by simp
  have x: "x = of_int M * 2 powi e"
    using assms unfolding binary64_unfold[OF False] M_def e_def k_def by simp
  have "\<bar>x\<bar> = \<bar>of_int M * 2 powi e\<bar>" using x by simp
  then have "of_int \<bar>M\<bar> * 2 powi e = \<bar>x\<bar>"
    by (simp add: abs_mult two_powi_pos less_imp_le)
  also have "\<bar>x\<bar> < 2 powi (k + 1)" unfolding k_def by (rule ilog2_gt[OF pos])
  also have "(2::rat) powi (k + 1) \<le> 2 powi (53 + e)"
    by (rule two_powi_mono) (simp add: e_def)
  also have "(2::rat) powi (53 + e) = of_int (2 ^ 53) * 2 powi e"
    by (simp add: power_int_add)
  finally have "(of_int \<bar>M\<bar> :: rat) < of_int (2 ^ 53)"
    using two_powi_pos[of e] by (simp only: mult_less_cancel_right_pos)
  then have M: "\<bar>M\<bar> < 2 ^ 53" by (simp only: of_int_less_iff)
  have "- 1074 \<le> e" "k - 52 \<le> e" by (simp_all add: e_def)
  with x M show ?thesis unfolding k_def by blast
qed

lemma binary64_times_four:
  assumes "binary64 u = u"
  shows "binary64 (u * 4) = u * 4"
proof -
  from binary64_fixed_repr[OF assms] obtain m j where
    u: "u = of_int m * 2 powi j" and m: "\<bar>m\<bar> < 2 ^ 53" and j: "- 1074 \<le> j"
    by blast
  have "u * 4 = of_int m * 2 powi (j + 2)"
    by (simp add: u power_int_add)
  then show ?thesis
    by (rule binary64_exact) (use m j in simp_all)
qed

subsection \<open>Rounded quotients, products and sums that are exact\<close>

lemma round_eqI:
  fixes y :: rat
  assumes "of_int N - 1 / 2 \<le> y" and "y < of_int N + 1 / 2"
  shows "round y = N"
proof -
  have "\<lfloor>y + 1 / 2\<rfloor> = N"
    by (rule floor_unique) (use assms in simp_all)
  then show ?thesis by (simp add: round_def)
qed

lemma round_bounds:
  fixes y :: rat
  shows "of_int (round y) - 1 / 2 \<le> y \<and> y < of_int (round y) + 1 / 2"
proof -
  have "of_int \<lfloor>y + 1 / 2\<rfloor> \<le> y + 1 / 2" "y + 1 / 2 < of_int \<lfloor>y + 1 / 2\<rfloor> + 1"
    by linarith+
  then show ?thesis unfolding round_def by linarith
qed

lemma round_binary64_quotient:
  assumes T0: "0 \<le> T" and T: "T < 2 ^ 51" and p: "1 \<le> p"
  shows "round (binary64 (of_int T / of_int p)) = round (of_int T / of_int p :: rat)"
proof -
  define q :: rat where "q = of_int T / of_int p"
  define k where "k = round q"
  have P: "(0::rat) < of_int p" using p by simp
  have q0: "0 \<le> q" using T0 P by (simp add: q_def)
  have qT: "q \<le> of_int T"
  proof -
    have "of_int T / of_int p \<le> (of_int T :: rat) / 1"
      using T0 p by (intro divide_left_mono) simp_all
    then show ?thesis by (simp add: q_def)
  qed
  have "(of_int T :: rat) < of_int (2 ^ 51)" using T by (simp only: of_int_less_iff)
  then have Tr: "(of_int T :: rat) < 2 ^ 51" by simp
  have qsmall: "\<bar>q\<bar> < 2 ^ 53" using q0 qT Tr by simp
  have lo: "of_int k - 1 / 2 \<le> q" and hi: "q < of_int k + 1 / 2"
    using round_bounds[of q] by (simp_all add: k_def)
  have fl0: "0 \<le> binary64 q"
    using binary64_ge_int[of 0 q] q0 qsmall by simp
  have err: "\<bar>binary64 q - q\<bar> \<le> max (q / 2 ^ 53) (1 / 2 ^ 1075)"
    using binary64_error[of q] q0 by simp
  have "round (binary64 q) = k"
  proof (cases "4 * T < p")
    case True
    then have "(of_int (4 * T) :: rat) < of_int p" by (simp only: of_int_less_iff)
    then have q4: "q < 1 / 4" using P by (simp add: q_def field_simps)
    have k0: "k = 0" unfolding k_def by (rule round_eqI) (use q0 q4 in simp_all)
    have "max (q / 2 ^ 53) (1 / 2 ^ 1075) \<le> 1 / 8"
      using q4 q0 by simp
    with err have "binary64 q < 1 / 2" using q4 by linarith
    with fl0 show ?thesis unfolding k0 by (intro round_eqI) simp_all
  next
    case False
    then have pT: "p \<le> 4 * T" by simp
    with p have T1: "1 \<le> T" by simp
    from pT have "(of_int p :: rat) \<le> of_int (4 * T)" by (simp only: of_int_le_iff)
    then have q4: "1 / 4 \<le> q" using P by (simp add: q_def field_simps)
    have "(1::rat) / 2 ^ 1075 \<le> (1 / 4) / 2 ^ 53" by simp
    also have "\<dots> \<le> q / 2 ^ 53" using q4 by (simp add: divide_right_mono)
    finally have "max (q / 2 ^ 53) (1 / 2 ^ 1075) = q / 2 ^ 53" by simp
    with err have err': "\<bar>binary64 q - q\<bar> \<le> q / 2 ^ 53" by simp
    have "q / 2 ^ 53 = of_int T / 2 ^ 53 / of_int p" by (simp add: q_def)
    also have "\<dots> < (1 / 4) / of_int p"
      using Tr P by (intro divide_strict_right_mono) simp_all
    finally have small: "q / 2 ^ 53 < 1 / (4 * of_int p)" by simp
    have upper: "binary64 q < of_int k + 1 / 2"
    proof -
      from hi have "of_int T < (of_int k + 1 / 2) * (of_int p :: rat)"
        using P by (simp add: q_def pos_divide_less_eq)
      then have "(of_int (2 * T) :: rat) < of_int ((2 * k + 1) * p)"
        by (simp add: algebra_simps)
      then have "2 * T < (2 * k + 1) * p" by (simp only: of_int_less_iff)
      then have "2 * T + 1 \<le> (2 * k + 1) * p" by simp
      then have "(of_int (2 * T + 1) :: rat) \<le> of_int ((2 * k + 1) * p)"
        by (simp only: of_int_le_iff)
      then have "q + 1 / (2 * of_int p) \<le> of_int k + 1 / 2"
        using P by (simp add: q_def field_simps)
      moreover have "1 / (4 * of_int p) < 1 / (2 * (of_int p :: rat))"
        using P by (simp add: field_simps)
      ultimately show ?thesis using err' small by linarith
    qed
    have lower: "of_int k - 1 / 2 \<le> binary64 q"
    proof (cases "of_int k - 1 / 2 = q")
      case True
      then have qh: "q = of_int (2 * k - 1) / 2" by simp
      have "0 \<le> 2 * k - 1"
      proof -
        from q0 qh have "(0::rat) \<le> of_int (2 * k - 1)" by simp
        then show ?thesis by (simp only: of_int_0_le_iff)
      qed
      moreover have "2 * k - 1 < 2 ^ 53"
      proof -
        from qT Tr qh have "(of_int (2 * k - 1) :: rat) < of_int (2 ^ 53)" by simp
        then show ?thesis by (simp only: of_int_less_iff)
      qed
      ultimately have "\<bar>2 * k - 1\<bar> < 2 ^ 53" by simp
      then have "binary64 q = q" unfolding qh by (rule binary64_half_int)
      with True show ?thesis by simp
    next
      case False
      with lo have "of_int k - 1 / 2 < q" by simp
      then have "(of_int k - 1 / 2) * (of_int p :: rat) < of_int T"
        using P by (simp add: q_def pos_less_divide_eq)
      then have "(of_int ((2 * k - 1) * p) :: rat) < of_int (2 * T)"
        by (simp add: algebra_simps)
      then have "(2 * k - 1) * p < 2 * T" by (simp only: of_int_less_iff)
      then have "(2 * k - 1) * p + 1 \<le> 2 * T" by simp
      then have "(of_int ((2 * k - 1) * p + 1) :: rat) \<le> of_int (2 * T)"
        by (simp only: of_int_le_iff)
      then have "of_int k - 1 / 2 \<le> q - 1 / (2 * of_int p)"
        using P by (simp add: q_def field_simps)
      moreover have "1 / (4 * of_int p) < 1 / (2 * (of_int p :: rat))"
        using P by (simp add: field_simps)
      ultimately show ?thesis using err' small by linarith
    qed
    from lower upper show ?thesis by (rule round_eqI)
  qed
  then show ?thesis by (simp add: k_def q_def)
qed

lemma round_binary64_scaled:
  fixes K e :: rat
  assumes e0: "0 \<le> e" and e100: "e \<le> 100" and K0: "0 < K" and K: "K \<le> 15000"
    and N: "K * (1 + e / 100) = of_int N"
  shows "round (binary64 (K * binary64 (1 + binary64 (e / 100)))) = N"
proof -
  define a where "a = e / 100"
  define fa where "fa = binary64 a"
  define s where "s = 1 + fa"
  define fs where "fs = binary64 s"
  define p where "p = K * fs"
  define fp where "fp = binary64 p"
  have a: "0 \<le> a" "a \<le> 1" using e0 e100 by (simp_all add: a_def)
  have fa: "0 \<le> fa" "fa \<le> 1"
    using binary64_ge_int[of 0 a] binary64_le_int[of a 1] a by (simp_all add: fa_def)
  have "\<bar>fa - a\<bar> \<le> max (\<bar>a\<bar> / 2 ^ 53) (1 / 2 ^ 1075)"
    unfolding fa_def by (rule binary64_error)
  also have "\<dots> \<le> 1 / 2 ^ 53" using a by simp
  finally have ea: "\<bar>fa - a\<bar> \<le> 1 / 2 ^ 53" .
  have s: "1 \<le> s" "s \<le> 2" using fa by (simp_all add: s_def)
  have fs: "1 \<le> fs" "fs \<le> 2"
    using binary64_ge_int[of 1 s] binary64_le_int[of s 2] s by (simp_all add: fs_def)
  have "\<bar>fs - s\<bar> \<le> max (\<bar>s\<bar> / 2 ^ 53) (1 / 2 ^ 1075)"
    unfolding fs_def by (rule binary64_error)
  also have "\<dots> \<le> 2 / 2 ^ 53" using s by simp
  finally have es: "\<bar>fs - s\<bar> \<le> 2 / 2 ^ 53" .
  have p0: "0 \<le> p" using K0 fs by (simp add: p_def)
  have "p \<le> 15000 * 2" unfolding p_def using K K0 fs by (intro mult_mono) simp_all
  then have p30: "p \<le> 30000" by simp
  have "\<bar>fp - p\<bar> \<le> max (\<bar>p\<bar> / 2 ^ 53) (1 / 2 ^ 1075)"
    unfolding fp_def by (rule binary64_error)
  also have "\<dots> \<le> 30000 / 2 ^ 53" using p0 p30 by simp
  finally have ep: "\<bar>fp - p\<bar> \<le> 30000 / 2 ^ 53" .
  have "\<bar>K * (fs - s)\<bar> = K * \<bar>fs - s\<bar>" using K0 by (simp add: abs_mult)
  also have "\<dots> \<le> 15000 * (2 / 2 ^ 53)" using K K0 es by (intro mult_mono) simp_all
  finally have e2: "\<bar>K * (fs - s)\<bar> \<le> 30000 / 2 ^ 53" by simp
  have "\<bar>K * (fa - a)\<bar> = K * \<bar>fa - a\<bar>" using K0 by (simp add: abs_mult)
  also have "\<dots> \<le> 15000 * (1 / 2 ^ 53)" using K K0 ea by (intro mult_mono) simp_all
  finally have e3: "\<bar>K * (fa - a)\<bar> \<le> 15000 / 2 ^ 53" by simp
  have "fp - of_int N = (fp - p) + K * (fs - s) + K * (fa - a)"
    unfolding N[symmetric] p_def s_def a_def by (simp add: algebra_simps)
  then have "\<bar>fp - of_int N\<bar> \<le> \<bar>fp - p\<bar> + \<bar>K * (fs - s)\<bar> + \<bar>K * (fa - a)\<bar>"
    by linarith
  also have "\<dots> \<le> 75000 / 2 ^ 53" using ep e2 e3 by linarith
  also have "\<dots> < 1 / 2" by simp
  finally have "\<bar>fp - of_int N\<bar> < 1 / 2" .
  then have "round fp = N" by (intro round_eqI) linarith+
  then show ?thesis by (simp add: fp_def p_def fs_def s_def fa_def a_def)
qed

lemma foldl_binary64_sum:
  assumes "\<forall>a \<in> set xs. g a = of_int (f a) \<and> 0 \<le> f a \<and> f a \<le> B"
    and "0 \<le> s" and "s + B * int (length xs) < 2 ^ 53"
  shows "foldl (\<lambda>sum a. binary64 (sum + g a)) (of_int s) xs = of_int (s + sum_list (map f xs))"
  using assms
proof (induction xs arbitrary: s)
  case Nil
  then show ?case by simp
next
  case (Cons a xs)
  from Cons.prems(1) have ga: "g a = of_int (f a)" and f0: "0 \<le> f a" and fB: "f a \<le> B"
    by simp_all
  from f0 fB have B0: "0 \<le> B" by simp
  have len: "s + f a + B * int (length xs) < 2 ^ 53"
  proof -
    have "s + f a + B * int (length xs) \<le> s + B * int (length (a # xs))"
      using fB by (simp add: algebra_simps)
    with Cons.prems(3) show ?thesis by linarith
  qed
  have "0 \<le> B * int (length xs)" using B0 by simp
  with len Cons.prems(2) f0 have "\<bar>s + f a\<bar> < 2 ^ 53" by simp
  then have step: "binary64 (of_int s + g a) = of_int (s + f a)"
    unfolding ga using binary64_of_int[of "s + f a"] by simp
  have "foldl (\<lambda>sum a. binary64 (sum + g a)) (of_int s) (a # xs) =
        foldl (\<lambda>sum a. binary64 (sum + g a)) (of_int (s + f a)) xs"
    by (simp add: step)
  also have "\<dots> = of_int (s + f a + sum_list (map f xs))"
    by (rule Cons.IH) (use Cons.prems(1,2) f0 len in simp_all)
  finally show ?case by (simp add: add.assoc)
qed

subsection \<open>The day count on double budgets\<close>

lemma dyadic_below_int:
  fixes b :: rat
  assumes b: "b = of_int m * 2 powi j" and j: "- int g \<le> j" and lt: "b < of_int K"
  shows "b \<le> of_int K - 1 / 2 ^ g"
proof -
  have nn: "(2::rat) powi (j + int g) = of_int (2 ^ nat (j + int g))"
    using j by (simp add: power_int_def)
  have "b * 2 ^ g = of_int m * (2 powi j * 2 powi (int g))"
    by (simp add: b)
  also have "\<dots> = of_int m * 2 powi (j + int g)"
    by (simp add: power_int_add)
  also have "\<dots> = of_int (m * 2 ^ nat (j + int g))"
    by (simp add: nn)
  finally have bi: "b * 2 ^ g = of_int (m * 2 ^ nat (j + int g))" .
  have "b * 2 ^ g < of_int K * 2 ^ g" using lt by simp
  then have "(of_int (m * 2 ^ nat (j + int g)) :: rat) < of_int (K * 2 ^ g)"
    unfolding bi by simp
  then have "m * 2 ^ nat (j + int g) < K * 2 ^ g" by (simp only: of_int_less_iff)
  then have "m * 2 ^ nat (j + int g) + 1 \<le> K * 2 ^ g" by simp
  then have "(of_int (m * 2 ^ nat (j + int g) + 1) :: rat) \<le> of_int (K * 2 ^ g)"
    by (simp only: of_int_le_iff)
  then have "b * 2 ^ g + 1 \<le> of_int K * 2 ^ g" using bi by simp
  then have "b * 2 ^ g \<le> (of_int K - 1 / 2 ^ g) * 2 ^ g"
    by (simp add: algebra_simps)
  then show ?thesis by (simp only: mult_le_cancel_right_pos zero_less_power zero_less_numeral)
qed

lemma repr_exponent:
  fixes b :: rat
  assumes b: "b = of_int m * 2 powi j" and m: "\<bar>m\<bar> < 2 ^ 53" and lo: "2 powi a \<le> b"
  shows "a - 52 \<le> j"
proof -
  have "b \<le> \<bar>b\<bar>" by simp
  also have "\<bar>b\<bar> = of_int \<bar>m\<bar> * 2 powi j"
    by (simp add: b abs_mult two_powi_pos less_imp_le)
  also have "\<dots> < of_int (2 ^ 53) * 2 powi j"
    using m by (intro mult_strict_right_mono two_powi_pos) (simp only: of_int_less_iff)
  also have "\<dots> = 2 powi (53 + j)" by (simp add: power_int_add)
  finally have "(2::rat) powi a < 2 powi (53 + j)" using lo by simp
  then have "a < 53 + j" by (rule two_powi_less_cancel)
  then show ?thesis by simp
qed

lemma totalDays_binary64:
  assumes "binary64 b = b"
  shows "min (max \<lfloor>binary64 (b / 8000)\<rfloor> 3) 14 = min (max \<lfloor>b / 8000\<rfloor> 3) 14"
proof -
  define q where "q = b / 8000"
  consider (low) "b \<le> 24000" | (mid) "24000 < b" "b < 120000" | (high) "120000 \<le> b"
    by linarith
  then have "min (max \<lfloor>binary64 q\<rfloor> 3) 14 = min (max \<lfloor>q\<rfloor> 3) 14"
  proof cases
    case low
    then have q3: "q \<le> 3" by (simp add: q_def)
    have "binary64 q \<le> 3"
    proof (cases "- 1 \<le> q")
      case True
      with q3 have "\<bar>q\<bar> < 2 ^ 53" by simp
      with binary64_le_int[of q 3] q3 show ?thesis by simp
    next
      case False
      then have neg: "q < - 1" by simp
      have "\<bar>binary64 q - q\<bar> \<le> max (\<bar>q\<bar> / 2 ^ 53) (1 / 2 ^ 1075)"
        by (rule binary64_error)
      also have "\<dots> \<le> \<bar>q\<bar>"
      proof -
        have "\<bar>q\<bar> / 2 ^ 53 \<le> \<bar>q\<bar> / 1" by (intro divide_left_mono) simp_all
        moreover have "(1::rat) / 2 ^ 1075 \<le> 1" by simp
        ultimately show ?thesis using neg by simp
      qed
      finally show ?thesis using neg by linarith
    qed
    then have "\<lfloor>binary64 q\<rfloor> \<le> 3" by (simp add: floor_le_iff)
    moreover from q3 have "\<lfloor>q\<rfloor> \<le> 3" by (simp add: floor_le_iff)
    ultimately show ?thesis by simp
  next
    case high
    then have q15: "15 \<le> q" by (simp add: q_def)
    have "15 \<le> binary64 q"
    proof (cases "q < 2 ^ 53")
      case True
      with q15 have "\<bar>q\<bar> < 2 ^ 53" by simp
      with binary64_ge_int[of 15 q] q15 show ?thesis by simp
    next
      case False
      then have big: "2 ^ 53 \<le> q" by simp
      have "\<bar>binary64 q - q\<bar> \<le> max (\<bar>q\<bar> / 2 ^ 53) (1 / 2 ^ 1075)"
        by (rule binary64_error)
      also have "\<dots> \<le> q / 2"
      proof -
        have "q / 2 ^ 53 \<le> q / 2" using big by (intro divide_left_mono) simp_all
        moreover have "(1::rat) / 2 ^ 1075 \<le> q / 2" using big by simp
        ultimately show ?thesis using big by simp
      qed
      finally have "q / 2 \<le> binary64 q" by linarith
      moreover have "(15::rat) \<le> 2 ^ 53 / 2" by simp
      moreover have "(2::rat) ^ 53 / 2 \<le> q / 2" using big by simp
      ultimately show ?thesis by linarith
    qed
    then have "15 \<le> \<lfloor>binary64 q\<rfloor>" by (simp add: le_floor_iff)
    moreover from q15 have "15 \<le> \<lfloor>q\<rfloor>" by (simp add: le_floor_iff)
    ultimately show ?thesis by simp
  next
    case mid
    define k where "k = \<lfloor>q\<rfloor>"
    have q: "3 < q" "q < 15" using mid by (simp_all add: q_def)
    have kq: "of_int k \<le> q" and qk: "q < of_int (k + 1)"
      unfolding k_def by linarith+
    have qsmall: "\<bar>q\<bar> < 2 ^ 53" using q by simp
    have lower: "of_int k \<le> binary64 q"
      by (rule binary64_ge_int[OF kq qsmall])
    from binary64_fixed_repr[OF assms] obtain m j where
      b: "b = of_int m * 2 powi j" and m: "\<bar>m\<bar> < 2 ^ 53"
      by blast
    have bK: "b < of_int (8000 * (k + 1))"
      using qk by (simp add: q_def)
    have upper: "binary64 q < of_int (k + 1)"
    proof (cases "b < 64000")
      case True
      have "(2::rat) powi 14 \<le> b" using mid(1) by simp
      from repr_exponent[OF b m this] have "- int 38 \<le> j" by simp
      from dyadic_below_int[OF b this bK]
      have "b \<le> of_int (8000 * (k + 1)) - 1 / 2 ^ 38" .
      then have gap: "q \<le> of_int (k + 1) - 1 / (8000 * 2 ^ 38)"
        by (simp add: q_def field_simps)
      have "q < 2 powi 3" using True by (simp add: q_def)
      with q(1) have "\<bar>binary64 q - q\<bar> \<le> 2 powi (3 - 54)"
        by (intro binary64_error_below) simp_all
      also have "(2::rat) powi (3 - 54) = 1 / 2 ^ 51"
        by (simp add: power_int_def inverse_eq_divide power_one_over)
      finally have err: "\<bar>binary64 q - q\<bar> \<le> 1 / 2 ^ 51" .
      have "(1::rat) / 2 ^ 51 < 1 / (8000 * 2 ^ 38)" by simp
      with gap err show ?thesis by linarith
    next
      case False
      then have "(2::rat) powi 15 \<le> b" by simp
      from repr_exponent[OF b m this] have "- int 37 \<le> j" by simp
      from dyadic_below_int[OF b this bK]
      have "b \<le> of_int (8000 * (k + 1)) - 1 / 2 ^ 37" .
      then have gap: "q \<le> of_int (k + 1) - 1 / (8000 * 2 ^ 37)"
        by (simp add: q_def field_simps)
      have "q < 2 powi 4" using q(2) by simp
      with q(1) have "\<bar>binary64 q - q\<bar> \<le> 2 powi (4 - 54)"
        by (intro binary64_error_below) simp_all
      also have "(2::rat) powi (4 - 54) = 1 / 2 ^ 50"
        by (simp add: power_int_def inverse_eq_divide power_one_over)
      finally have err: "\<bar>binary64 q - q\<bar> \<le> 1 / 2 ^ 50" .
      have "(1::rat) / 2 ^ 50 < 1 / (8000 * 2 ^ 37)" by simp
      with gap err show ?thesis by linarith
    qed
    have "\<lfloor>binary64 q\<rfloor> = k"
      by (rule floor_unique) (use lower upper in simp_all)
    then show ?thesis by (simp add: k_def)
  qed
  then show ?thesis by (simp add: q_def)
qed

section \<open>Properties of the loops and of the generator\<close>

subsection \<open>Activities\<close>

lemma newActivity_snd: "snd (newActivity rnd dest th e m i n) = n + 2"
  by (simp add: newActivity_def Math_random_def)

lemma newActivity_name:
  "name (fst (newActivity rnd dest th e m i n)) = generateActivityName dest th i e"
  by (simp add: newActivity_def Math_random_def)

lemma newActivity_cost:
  "cost (fst (newActivity rnd dest th e m i n)) =
     round (binary64 (binary64 (500 + binary64 (Rep_unit_draw (rnd (Suc n)) * 3000)) * m))"
  by (simp add: newActivity_def Math_random_def)

lemma luxuryMultiplier_bounds:
  assumes "0 \<le> e" and "e \<le> 100"
  shows "1 \<le> luxuryMultiplier e \<and> luxuryMultiplier e \<le> 2"
proof -
  have a: "0 \<le> e / 100" "e / 100 \<le> 1" using assms by simp_all
  have fa: "0 \<le> binary64 (e / 100)" "binary64 (e / 100) \<le> 1"
    using binary64_ge_int[of 0 "e / 100"] binary64_le_int[of "e / 100" 1] a by simp_all
  then have s: "1 \<le> 1 + binary64 (e / 100)" "1 + binary64 (e / 100) \<le> 2" by simp_all
  then show ?thesis
    using binary64_ge_int[of 1 "1 + binary64 (e / 100)"]
      binary64_le_int[of "1 + binary64 (e / 100)" 2]
    by (simp add: luxuryMultiplier_def)
qed

lemma activity_cost_bounds:
  assumes u: "0 \<le> u" "u < 1" and m: "1 \<le> m" "m \<le> 2"
  shows "500 \<le> round (binary64 (binary64 (500 + binary64 (u * 3000)) * m)) \<and>
         round (binary64 (binary64 (500 + binary64 (u * 3000)) * m)) \<le> 7000"
proof -
  define x where "x = binary64 (u * 3000)"
  define y where "y = binary64 (500 + x)"
  define z where "z = binary64 (y * m)"
  have "0 \<le> u * 3000" "u * 3000 \<le> 3000" using u by simp_all
  then have x: "0 \<le> x" "x \<le> 3000"
    using binary64_ge_int[of 0 "u * 3000"] binary64_le_int[of "u * 3000" 3000]
    by (simp_all add: x_def)
  then have y: "500 \<le> y" "y \<le> 3500"
    using binary64_ge_int[of 500 "500 + x"] binary64_le_int[of "500 + x" 3500]
    by (simp_all add: y_def)
  have "500 * 1 \<le> y * m" using y m by (intro mult_mono) simp_all
  moreover have "y * m \<le> 3500 * 2" using y m by (intro mult_mono) simp_all
  ultimately have ym: "500 \<le> y * m" "y * m \<le> 7000" by simp_all
  then have z: "500 \<le> z" "z \<le> 7000"
    using binary64_ge_int[of 500 "y * m"] binary64_le_int[of "y * m" 7000]
    by (simp_all add: z_def)
  have "round (500 :: rat) \<le> round z" using z(1) by (rule round_mono)
  moreover have "round z \<le> round (7000 :: rat)" using z(2) by (rule round_mono)
  ultimately show ?thesis by (simp add: z_def y_def x_def)
qed

lemma newActivity_cost_bounds:
  assumes "1 \<le> m" and "m \<le> 2"
  shows "500 \<le> cost (fst (newActivity rnd dest th e m i n)) \<and>
         cost (fst (newActivity rnd dest th e m i n)) \<le> 7000"
proof -
  have "0 \<le> Rep_unit_draw (rnd (Suc n)) \<and> Rep_unit_draw (rnd (Suc n)) < 1"
    using Rep_unit_draw[of "rnd (Suc n)"] by simp
  then show ?thesis
    unfolding newActivity_cost using assms by (intro activity_cost_bounds) simp_all
qed

lemma activityLoop_closed:
  "activityLoop rnd dest th e m cnt i acts n =
     (acts @ map (\<lambda>k. fst (newActivity rnd dest th e m k (n + 2 * (k - i)))) [i..<cnt],
      n + 2 * (cnt - i))"
proof (induction rnd dest th e m cnt i acts n rule: activityLoop.induct)
  case (1 rnd dest th e m cnt i acts n)
  show ?case
  proof (cases "i < cnt")
    case False
    then show ?thesis by (simp add: activityLoop.simps)
  next
    case True
    obtain a n' where an: "newActivity rnd dest th e m i n = (a, n')"
      by (cases "newActivity rnd dest th e m i n")
    have n': "n' = n + 2" using newActivity_snd[of rnd dest th e m i n] an by simp
    have a: "a = fst (newActivity rnd dest th e m i n)" using an by simp
    have step: "activityLoop rnd dest th e m cnt i acts n =
        activityLoop rnd dest th e m cnt (Suc i) (acts @ [a]) n'"
      using True an by (subst activityLoop.simps) simp
    have ih: "activityLoop rnd dest th e m cnt (Suc i) (acts @ [a]) n' =
        ((acts @ [a]) @ map (\<lambda>k. fst (newActivity rnd dest th e m k (n' + 2 * (k - Suc i)))) [Suc i..<cnt],
         n' + 2 * (cnt - Suc i))"
      using "1.IH"[OF True an[symmetric]] .
    have idx: "map (\<lambda>k. fst (newActivity rnd dest th e m k (n' + 2 * (k - Suc i)))) [Suc i..<cnt] =
               map (\<lambda>k. fst (newActivity rnd dest th e m k (n + 2 * (k - i)))) [Suc i..<cnt]"
      by (rule map_cong) (auto simp: n' intro!: arg_cong[where f="\<lambda>x. fst (newActivity rnd dest th e m _ x)"])
    have up: "[i..<cnt] = i # [Suc i..<cnt]" using True by (simp add: upt_conv_Cons)
    show ?thesis
      unfolding step ih idx up using True by (simp add: a n')
  qed
qed

subsection \<open>Day plans\<close>

lemma newDayPlan_day: "day (fst (newDayPlan rnd dest e m d n)) = d"
  by (simp add: newDayPlan_def Let_def split: prod.splits)

lemma newDayPlan_theme:
  "theme (fst (newDayPlan rnd dest e m d n)) = themes ! nat ((d - 1) mod 8)"
  by (simp add: newDayPlan_def Let_def themes_def split: prod.splits)

lemma newDayPlan_activities:
  "activities (fst (newDayPlan rnd dest e m d n)) =
     map (\<lambda>k. fst (newActivity rnd dest (themes ! nat ((d - 1) mod 8)) e m k (n + 2 * k)))
       [0..<activityCount e]"
  by (simp add: newDayPlan_def Let_def activityLoop_closed themes_def)

lemma newDayPlan_estimatedCost:
  "estimatedCost (fst (newDayPlan rnd dest e m d n)) =
     foldl (\<lambda>sum activity. binary64 (sum + of_int (cost activity))) 0
       (activities (fst (newDayPlan rnd dest e m d n)))"
  by (simp add: newDayPlan_def Let_def split: prod.splits)

lemma newDayPlan_snd: "snd (newDayPlan rnd dest e m d n) = n + 2 * activityCount e"
  by (simp add: newDayPlan_def Let_def activityLoop_closed)

lemma newDayPlan_names:
  "map name (activities (fst (newDayPlan rnd dest e m d n))) =
     map (\<lambda>i. generateActivityName dest (theme (fst (newDayPlan rnd dest e m d n))) i e)
       [0..<activityCount e]"
  by (simp add: newDayPlan_activities newDayPlan_theme newActivity_name comp_def)

lemma newDayPlan_costs:
  "map cost (activities (fst (newDayPlan rnd dest e m d n))) =
     map (\<lambda>k. round (binary64 (binary64 (500 +
            binary64 (Rep_unit_draw (rnd (Suc (n + 2 * k))) * 3000)) * m)))
       [0..<activityCount e]"
  by (simp add: newDayPlan_activities newActivity_cost comp_def)

lemma newDayPlan_length:
  "length (activities (fst (newDayPlan rnd dest e m d n))) = activityCount e"
  by (simp add: newDayPlan_activities)

lemma activityCount_le: "activityCount e \<le> 5"
  by (simp add: activityCount_def)

text \<open>
  With a multiplier between 1 and 2, the rounded sum of a day's costs is their exact sum.
\<close>

lemma newDayPlan_estimatedCost_exact:
  assumes "1 \<le> m" and "m \<le> 2"
  shows "estimatedCost (fst (newDayPlan rnd dest e m d n)) =
           of_int (sum_list (map cost (activities (fst (newDayPlan rnd dest e m d n))))) \<and>
         0 \<le> sum_list (map cost (activities (fst (newDayPlan rnd dest e m d n)))) \<and>
         sum_list (map cost (activities (fst (newDayPlan rnd dest e m d n)))) \<le> 35000"
proof -
  define acts where "acts = activities (fst (newDayPlan rnd dest e m d n))"
  have len: "length acts \<le> 5"
    unfolding acts_def newDayPlan_length by (rule activityCount_le)
  have bnd: "500 \<le> cost a \<and> cost a \<le> 7000" if "a \<in> set acts" for a
  proof -
    from that obtain k where "a = fst (newActivity rnd dest (themes ! nat ((d - 1) mod 8)) e m k (n + 2 * k))"
      unfolding acts_def newDayPlan_activities by auto
    then show ?thesis using newActivity_cost_bounds[OF assms] by simp
  qed
  have c0: "0 \<le> cost a" if "a \<in> set acts" for a using bnd[OF that] by simp
  have c7: "cost a \<le> 7000" if "a \<in> set acts" for a using bnd[OF that] by simp
  have all: "\<forall>a \<in> set acts. (of_int (cost a) :: rat) = of_int (cost a) \<and> 0 \<le> cost a \<and> cost a \<le> 7000"
    using c0 c7 by simp
  have small: "(0::int) + 7000 * int (length acts) < 2 ^ 53" using len by simp
  have "foldl (\<lambda>sum a. binary64 (sum + of_int (cost a))) (of_int 0) acts =
      of_int (0 + sum_list (map cost acts))"
    by (rule foldl_binary64_sum[where B = 7000, OF all _ small]) simp
  then have eq: "estimatedCost (fst (newDayPlan rnd dest e m d n)) = of_int (sum_list (map cost acts))"
    unfolding newDayPlan_estimatedCost acts_def by simp
  have lo: "0 \<le> sum_list (map cost acts)"
    by (rule sum_list_nonneg) (use c0 in auto)
  have "sum_list (map cost acts) \<le> sum_list (map (\<lambda>a. 7000) acts)"
    by (rule sum_list_mono) (use c7 in auto)
  also have "\<dots> = 7000 * int (length acts)" by (simp add: sum_list_triv)
  also have "\<dots> \<le> 35000" using len by simp
  finally have hi: "sum_list (map cost acts) \<le> 35000" .
  from eq lo hi show ?thesis unfolding acts_def by blast
qed

lemma dayLoop_closed:
  "dayLoop rnd dest e m days d plans n =
     (plans @ map (\<lambda>k. fst (newDayPlan rnd dest e m k (n + 2 * activityCount e * nat (k - d)))) [d..days],
      n + 2 * activityCount e * nat (days + 1 - d))"
proof (induction rnd dest e m days d plans n rule: dayLoop.induct)
  case (1 rnd dest e m days d plans n)
  show ?case
  proof (cases "d \<le> days")
    case False
    then show ?thesis by (simp add: dayLoop.simps)
  next
    case True
    obtain p n' where pn: "newDayPlan rnd dest e m d n = (p, n')"
      by (cases "newDayPlan rnd dest e m d n")
    have n': "n' = n + 2 * activityCount e" using newDayPlan_snd[of rnd dest e m d n] pn by simp
    have p: "p = fst (newDayPlan rnd dest e m d n)" using pn by simp
    have step: "dayLoop rnd dest e m days d plans n = dayLoop rnd dest e m days (d + 1) (plans @ [p]) n'"
      using True pn by (subst dayLoop.simps) simp
    have ih: "dayLoop rnd dest e m days (d + 1) (plans @ [p]) n' =
      ((plans @ [p]) @
         map (\<lambda>k. fst (newDayPlan rnd dest e m k (n' + 2 * activityCount e * nat (k - (d + 1))))) [d + 1..days],
       n' + 2 * activityCount e * nat (days + 1 - (d + 1)))"
      using "1.IH"[OF True pn[symmetric]] .
    have pos: "n' + 2 * activityCount e * nat (k - (d + 1)) = n + 2 * activityCount e * nat (k - d)"
      if "d + 1 \<le> k" for k
    proof -
      from that have "nat (k - d) = Suc (nat (k - (d + 1)))" by simp
      then show ?thesis by (simp add: n')
    qed
    have idx: "map (\<lambda>k. fst (newDayPlan rnd dest e m k (n' + 2 * activityCount e * nat (k - (d + 1))))) [d + 1..days] =
               map (\<lambda>k. fst (newDayPlan rnd dest e m k (n + 2 * activityCount e * nat (k - d)))) [d + 1..days]"
      by (rule map_cong) (simp_all add: pos)
    have up: "[d..days] = d # [d + 1..days]" using True by (simp add: upto_rec1)
    have cnt: "nat (days + 1 - d) = Suc (nat (days + 1 - (d + 1)))" using True by simp
    show ?thesis
      unfolding step ih idx up cnt by (simp add: p n')
  qed
qed

lemma dayLoop_elems:
  assumes "p \<in> set (fst (dayLoop rnd dest e m days d [] n))"
  shows "\<exists>k n'. p = fst (newDayPlan rnd dest e m k n')"
  using assms by (auto simp: dayLoop_closed)

subsection \<open>Hotels\<close>

lemma generateHotels_single:
  "\<exists>h. generateHotels dest e m = [h]"
  by (simp add: generateHotels_def)

lemma generateHotels_price:
  "map pricePerNight (generateHotels dest e m) =
     [round (binary64 ((if e \<le> 25 then 1500 else if e \<le> 50 then 3500
                        else if e \<le> 75 then 7500 else 15000) * m))]"
  by (simp add: generateHotels_def)

lemma generateHotels_name:
  "map hotel_name (generateHotels dest e m) =
     [if e \<le> 25 then dest @ '' Backpacker's Haven''
      else if e \<le> 50 then dest @ '' Comfort Inn & Suites''
      else if e \<le> 75 then dest @ '' Premium Resort''
      else ''The Luxury '' @ dest @ '' Collection'']"
  by (simp add: generateHotels_def)

lemma generateHotels_price_bounds:
  assumes "1 \<le> m" and "m \<le> 2" and "generateHotels dest e m = [h]"
  shows "0 \<le> pricePerNight h \<and> pricePerNight h \<le> 30000"
proof -
  define K :: rat where
    "K = (if e \<le> 25 then 1500 else if e \<le> 50 then 3500 else if e \<le> 75 then 7500 else 15000)"
  have K: "0 \<le> K" "K \<le> 15000" by (simp_all add: K_def)
  have p: "pricePerNight h = round (binary64 (K * m))"
    using generateHotels_price[of dest e m] by (simp add: assms(3) K_def)
  have "0 \<le> K * m" using K assms by simp
  moreover have "K * m \<le> 15000 * 2" using K assms by (intro mult_mono) simp_all
  ultimately have km: "0 \<le> K * m" "K * m \<le> 30000" by simp_all
  then have z: "0 \<le> binary64 (K * m)" "binary64 (K * m) \<le> 30000"
    using binary64_ge_int[of 0 "K * m"] binary64_le_int[of "K * m" 30000] by simp_all
  have "round (0 :: rat) \<le> round (binary64 (K * m))" using z(1) by (rule round_mono)
  moreover have "round (binary64 (K * m)) \<le> round (30000 :: rat)" using z(2) by (rule round_mono)
  ultimately show ?thesis by (simp add: p)
qed

subsection \<open>The generated plan\<close>

lemma generateMockTripPlan_Inr:
  "generateMockTripPlan rnd n f =
     Inr \<lparr>plan_destination = destination f,
          totalDays = min (max \<lfloor>budget f / 8000\<rfloor> 3) 14,
          totalCost =
            binary64
              (foldl (\<lambda>sum dp. binary64 (sum + estimatedCost dp)) 0
                 (fst (dayLoop rnd (destination f) (experienceType f)
                        (luxuryMultiplier (experienceType f))
                        (min (max \<lfloor>budget f / 8000\<rfloor> 3) 14) 1 [] n)) +
               binary64
                 (of_int (pricePerNight (hd (generateHotels (destination f) (experienceType f)
                                               (luxuryMultiplier (experienceType f))))) *
                  of_int (min (max \<lfloor>budget f / 8000\<rfloor> 3) 14))),
          costPerPerson =
            round_quotient
              (binary64
                (foldl (\<lambda>sum dp. binary64 (sum + estimatedCost dp)) 0
                   (fst (dayLoop rnd (destination f) (experienceType f)
                          (luxuryMultiplier (experienceType f))
                          (min (max \<lfloor>budget f / 8000\<rfloor> 3) 14) 1 [] n)) +
                 binary64
                   (of_int (pricePerNight (hd (generateHotels (destination f) (experienceType f)
                                                 (luxuryMultiplier (experienceType f))))) *
                    of_int (min (max \<lfloor>budget f / 8000\<rfloor> 3) 14))))
              (people f),
          hotels =
            generateHotels (destination f) (experienceType f) (luxuryMultiplier (experienceType f)),
          dayPlans =
            fst (dayLoop rnd (destination f) (experienceType f)
                   (luxuryMultiplier (experienceType f))
                   (min (max \<lfloor>budget f / 8000\<rfloor> 3) 14) 1 [] n),
          overview =
            generateOverview (destination f) (min (max \<lfloor>budget f / 8000\<rfloor> 3) 14) (experienceType f),
          tips = generateTips (destination f) (experienceType f)\<rparr>"
proof -
  obtain h where h: "generateHotels (destination f) (experienceType f)
                       (luxuryMultiplier (experienceType f)) = [h]"
    using generateHotels_single by blast
  show ?thesis
    by (simp add: generateMockTripPlan_def Let_def h split: prod.splits)
qed

lemma generateMockTripPlan_projr:
  "generateMockTripPlan rnd n f = Inr (projr (generateMockTripPlan rnd n f))"
  unfolding generateMockTripPlan_Inr by simp

lemma plan_totalDays:
  assumes "generateMockTripPlan rnd n f = Inr plan"
  shows "totalDays plan = min (max \<lfloor>budget f / 8000\<rfloor> 3) 14"
proof -
  from assms have "Inr plan = generateMockTripPlan rnd n f" by simp
  then show ?thesis unfolding generateMockTripPlan_Inr by simp
qed

lemma plan_hotels:
  assumes "generateMockTripPlan rnd n f = Inr plan"
  shows "hotels plan =
    generateHotels (destination f) (experienceType f) (luxuryMultiplier (experienceType f))"
proof -
  from assms have "Inr plan = generateMockTripPlan rnd n f" by simp
  then show ?thesis unfolding generateMockTripPlan_Inr by simp
qed

lemma plan_dayPlans:
  assumes "generateMockTripPlan rnd n f = Inr plan"
  shows "dayPlans plan =
     map (\<lambda>k. fst (newDayPlan rnd (destination f) (experienceType f)
                     (luxuryMultiplier (experienceType f)) k
                     (n + 2 * activityCount (experienceType f) * nat (k - 1))))
       [1..totalDays plan]"
proof -
  from assms have "Inr plan = generateMockTripPlan rnd n f" by simp
  then show ?thesis unfolding generateMockTripPlan_Inr by (simp add: dayLoop_closed)
qed

lemma plan_totalCost:
  assumes "generateMockTripPlan rnd n f = Inr plan" and "hotels plan = [h]"
  shows "totalCost plan =
     binary64 (foldl (\<lambda>sum dp. binary64 (sum + estimatedCost dp)) 0 (dayPlans plan) +
               binary64 (of_int (pricePerNight h) * of_int (totalDays plan)))"
proof -
  from assms(1) have eq: "Inr plan = generateMockTripPlan rnd n f" by simp
  have "hd (hotels plan) = h" by (simp add: assms(2))
  then have "hd (generateHotels (destination f) (experienceType f)
                   (luxuryMultiplier (experienceType f))) = h"
    using plan_hotels[OF assms(1)] by simp
  with eq show ?thesis unfolding generateMockTripPlan_Inr by simp
qed

lemma plan_costPerPerson:
  assumes "generateMockTripPlan rnd n f = Inr plan"
  shows "costPerPerson plan = round_quotient (totalCost plan) (people f)"
proof -
  from assms have "Inr plan = generateMockTripPlan rnd n f" by simp
  then show ?thesis unfolding generateMockTripPlan_Inr by simp
qed

lemma plan_day_cases:
  assumes "generateMockTripPlan rnd n f = Inr plan" and "dp \<in> set (dayPlans plan)"
  shows "\<exists>k n'. dp = fst (newDayPlan rnd (destination f) (experienceType f)
                         (luxuryMultiplier (experienceType f)) k n')"
  using assms(2) unfolding plan_dayPlans[OF assms(1)] by auto

lemma plan_first_day:
  assumes "generateMockTripPlan rnd n f = Inr plan"
  shows "dayPlans plan \<noteq> [] \<and>
         hd (dayPlans plan) =
           fst (newDayPlan rnd (destination f) (experienceType f)
                  (luxuryMultiplier (experienceType f)) 1 n)"
proof -
  have "1 \<le> totalDays plan" unfolding plan_totalDays[OF assms] by simp
  then have "[1..totalDays plan] = 1 # [1 + 1..totalDays plan]" by (simp add: upto_rec1)
  then show ?thesis unfolding plan_dayPlans[OF assms] by simp
qed

subsection \<open>Names, themes and texts\<close>

lemma baseActivities_length: "length (baseActivities dest th) = 4"
  by (simp add: baseActivities_def activities_table_def)

lemma names_nth:
  assumes "map name acts = map g [0..<c]" and "i < c"
  shows "name (acts ! i) = g i"
proof -
  from assms(1) have len: "length acts = c"
    by (metis diff_zero length_map length_upt)
  with assms(2) have "name (acts ! i) = map name acts ! i" by simp
  also have "\<dots> = g i" unfolding assms(1) using assms(2) by simp
  finally show ?thesis .
qed

lemma themes_nth:
  "themes ! 0 = ''Arrival & City Exploration''"
  "themes ! 1 = ''Cultural Heritage Tour''"
  "themes ! Suc 0 = ''Cultural Heritage Tour''"
  "themes ! 2 = ''Adventure & Nature''"
  "themes ! 3 = ''Local Cuisine & Markets''"
  "themes ! 4 = ''Art & Museums''"
  by (simp_all add: themes_def)

lemma baseActivity_mem: "baseActivity dest th i \<in> set (baseActivities dest th)"
  unfolding baseActivity_def by (rule nth_mem) (simp add: baseActivities_length)

lemma plan_activity_name:
  assumes "generateMockTripPlan rnd n f = Inr plan"
    and "dp \<in> set (dayPlans plan)" and "a \<in> set (activities dp)"
  shows "\<exists>i. name a = generateActivityName (destination f) (theme dp) i (experienceType f)"
proof -
  let ?e = "experienceType f"
  from plan_day_cases[OF assms(1,2)] obtain k n' where
    dp: "dp = fst (newDayPlan rnd (destination f) ?e (luxuryMultiplier ?e) k n')"
    by blast
  from assms(3) have "name a \<in> set (map name (activities dp))" by simp
  then have "name a \<in> set (map (\<lambda>i. generateActivityName (destination f) (theme dp) i ?e)
                               [0..<activityCount ?e])"
    unfolding dp newDayPlan_names .
  then show ?thesis by auto
qed

lemma first_day_names:
  assumes "generateMockTripPlan rnd n f = Inr plan"
  shows "map name (activities (hd (dayPlans plan))) =
     map (\<lambda>i. generateActivityName (destination f) ''Arrival & City Exploration'' i
                 (experienceType f))
       [0..<activityCount (experienceType f)]"
  using plan_first_day[OF assms] by (simp add: newDayPlan_names newDayPlan_theme themes_nth)

lemma arrival_names:
  "baseActivity dest ''Arrival & City Exploration'' 0 = dest @ '' Walking Tour''"
  "baseActivity dest ''Arrival & City Exploration'' (Suc 0) = ''Historic City Center Visit''"
  "baseActivity dest ''Arrival & City Exploration'' 2 = ''Local Orientation & Welcome Dinner''"
  "baseActivity dest ''Arrival & City Exploration'' 3 = ''Sunset Viewpoint Tour''"
  "baseActivity dest ''Arrival & City Exploration'' 4 = dest @ '' Walking Tour''"
  by (simp_all add: baseActivity_def baseActivities_def activities_table_def)

lemma nat_toString_nonempty: "nat_toString k \<noteq> []"
  by (subst nat_toString.simps) simp

lemma generateOverview_nonempty: "generateOverview dest days e \<noteq> []"
  by (simp add: generateOverview_def Let_def)

subsection \<open>Further fields of the generated plan\<close>

lemma plan_destination_eq:
  assumes "generateMockTripPlan rnd n f = Inr plan"
  shows "plan_destination plan = destination f"
proof -
  from assms have "Inr plan = generateMockTripPlan rnd n f" by simp
  then show ?thesis unfolding generateMockTripPlan_Inr by simp
qed

lemma plan_overview:
  assumes "generateMockTripPlan rnd n f = Inr plan"
  shows "overview plan = generateOverview (destination f) (totalDays plan) (experienceType f)"
proof -
  from assms have "Inr plan = generateMockTripPlan rnd n f" by simp
  then show ?thesis unfolding generateMockTripPlan_Inr by simp
qed

lemma plan_tips:
  assumes "generateMockTripPlan rnd n f = Inr plan"
  shows "tips plan = generateTips (destination f) (experienceType f)"
proof -
  from assms have "Inr plan = generateMockTripPlan rnd n f" by simp
  then show ?thesis unfolding generateMockTripPlan_Inr by simp
qed

lemma plan_day_lengths:
  assumes "generateMockTripPlan rnd n f = Inr plan"
  shows "map (length \<circ> activities) (dayPlans plan) =
           replicate (nat (totalDays plan)) (activityCount (experienceType f))"
proof -
  have "map (length \<circ> activities) (dayPlans plan) =
        map (\<lambda>k. activityCount (experienceType f)) [1..totalDays plan]"
    unfolding plan_dayPlans[OF assms] by (simp add: comp_def newDayPlan_length)
  also have "\<dots> = replicate (length [1..totalDays plan]) (activityCount (experienceType f))"
    by (rule map_replicate_const)
  finally show ?thesis by simp
qed

lemma sum_list_of_int:
  "sum_list (map (\<lambda>x. (of_int (f x) :: rat)) xs) = of_int (sum_list (map f xs))"
  by (induction xs) simp_all

subsection \<open>Concrete values\<close>

lemma binary64_values:
  "binary64 1500 = 1500"
  "binary64 1875 = 1875"
  "binary64 2000 = 2000"
  "binary64 2500 = 2500"
  "binary64 (1 / 4) = 1 / 4"
  "binary64 (5 / 4) = 5 / 4"
proof -
  show "binary64 1500 = 1500" using binary64_of_int[of 1500] by simp
  show "binary64 1875 = 1875" using binary64_of_int[of 1875] by simp
  show "binary64 2000 = 2000" using binary64_of_int[of 2000] by simp
  show "binary64 2500 = 2500" using binary64_of_int[of 2500] by simp
  have q: "(1 / 4 :: rat) = of_int 1 * 2 powi (- 2)" "(5 / 4 :: rat) = of_int 5 * 2 powi (- 2)"
    by (simp_all add: power_int_minus)
  show "binary64 (1 / 4) = 1 / 4" by (rule binary64_exact[OF q(1)]) simp_all
  show "binary64 (5 / 4) = 5 / 4" by (rule binary64_exact[OF q(2)]) simp_all
qed

lemma luxuryMultiplier_25: "luxuryMultiplier 25 = 5 / 4"
  by (simp add: luxuryMultiplier_def binary64_values)

lemma paris_plan_Inr: "generateMockTripPlan half_source 0 paris_request = Inr paris_plan"
  unfolding paris_plan_def by (rule generateMockTripPlan_projr)

lemma plan_at_Inr: "generateMockTripPlan mixed_source 0 (request_at e) = Inr (plan_at e)"
  unfolding plan_at_def by (rule generateMockTripPlan_projr)

lemma paris_plan_totalDays: "totalDays paris_plan = 5"
  unfolding plan_totalDays[OF paris_plan_Inr] by (simp add: paris_request_def)

lemma plan_at_totalDays: "totalDays (plan_at e) = 3"
  unfolding plan_totalDays[OF plan_at_Inr] by (simp add: request_at_def)

lemma plan_at_first_day: "hd (dayPlans (plan_at e)) \<in> set (dayPlans (plan_at e))"
  using plan_first_day[OF plan_at_Inr, of e] hd_in_set by blast

lemma paris_plan_first_day: "hd (dayPlans paris_plan) \<in> set (dayPlans paris_plan)"
  using plan_first_day[OF paris_plan_Inr] hd_in_set by blast

lemma paris_plan_price: "map pricePerNight (hotels paris_plan) = [1875]"
  unfolding plan_hotels[OF paris_plan_Inr] generateHotels_price
  by (simp add: paris_request_def luxuryMultiplier_25 binary64_values)

lemma paris_plan_hotel_name: "map hotel_name (hotels paris_plan) = [''Paris Backpacker's Haven'']"
  unfolding plan_hotels[OF paris_plan_Inr] generateHotels_name
  by (simp add: paris_request_def)

lemma paris_plan_lengths: "map (length \<circ> activities) (dayPlans paris_plan) = [3, 3, 3, 3, 3]"
proof -
  have "replicate (nat 5) (activityCount 25) = [3, 3, 3, 3, 3]"
    by (simp add: activityCount_def numeral_eq_Suc)
  then show ?thesis
    using plan_day_lengths[OF paris_plan_Inr] by (simp add: paris_plan_totalDays paris_request_def)
qed

lemma plan_at_lengths:
  "map (length \<circ> activities) (dayPlans (plan_at e)) =
     [activityCount e, activityCount e, activityCount e]"
proof -
  have "replicate (nat 3) (activityCount e) = [activityCount e, activityCount e, activityCount e]"
    by (simp add: numeral_eq_Suc)
  then show ?thesis
    using plan_day_lengths[OF plan_at_Inr, of e] by (simp add: plan_at_totalDays request_at_def)
qed

lemma paris_plan_costs:
  "map (map cost \<circ> activities) (dayPlans paris_plan) =
     [[2500, 2500, 2500], [2500, 2500, 2500], [2500, 2500, 2500], [2500, 2500, 2500],
      [2500, 2500, 2500]]"
proof -
  have up: "[1..5::int] = [1, 2, 3, 4, 5]" by code_simp
  have upn: "[0..<3] = [0, 1, 2]" by code_simp
  have cnt: "activityCount 25 = 3" by (simp add: activityCount_def)
  have c: "round (binary64 (binary64 (500 + binary64 (Rep_unit_draw (half_source j) * 3000)) *
                            luxuryMultiplier 25)) = 2500" for j
    by (simp add: half_source_def draw_half.rep_eq luxuryMultiplier_25 binary64_values)
  have f: "destination paris_request = ''Paris''" "experienceType paris_request = 25"
    by (simp_all add: paris_request_def)
  show ?thesis
    unfolding plan_dayPlans[OF paris_plan_Inr] paris_plan_totalDays f up
    by (simp add: newDayPlan_costs cnt upn c)
qed

text \<open>
  The rounding shows in single values. At the level 25, with the double nearest to 0.99
  as the draw, an activity costs 4338, where exact arithmetic on the same draw gives 4337;
  the identities between the costs and their sums do not depend on it. Outside the data
  model the identities themselves fail. At the level one half the nightly price is 1507,
  where the exact product rounds to 1508. At the level \<open>10 ^ 16\<close>, with every draw one
  half, each activity costs 200000000000001984, and the rounded sum of five such costs is
  not their sum. At a party size that is not an integer, the rounded quotient of the total
  cost 46875 rounds to 2001, the exact quotient to 2000.
\<close>

lemma rounded_activity_cost:
  "round (binary64 (binary64 (500 + binary64 (binary64 (99 / 100) * 3000)) *
                    luxuryMultiplier 25)) = 4338 \<and>
   round ((500 + binary64 (99 / 100) * 3000) * (1 + 25 / 100)) = 4337"
  by code_simp

lemma half_level_price:
  "round (binary64 (1500 * luxuryMultiplier (1 / 2))) = 1507 \<and>
   round (1500 * (1 + (1 / 2) / 100) :: rat) = 1508"
  by code_simp

lemma large_level_cost:
  "round (binary64 (binary64 (500 + binary64 ((1 / 2) * 3000)) * luxuryMultiplier (10 ^ 16))) =
     200000000000001984"
  by code_simp

lemma large_level_drift:
  "foldl (\<lambda>sum c. binary64 (sum + of_int c)) 0
     [200000000000001984, 200000000000001984, 200000000000001984, 200000000000001984,
      200000000000001984] = 1000000000000009984 \<and>
   sum_list [200000000000001984, 200000000000001984, 200000000000001984, 200000000000001984,
      200000000000001984 :: int] = 1000000000000009920"
  by code_simp

lemma fractional_party_size:
  "round (binary64 (46875 / binary64 (2343164208947763 / 10 ^ 14))) = 2001 \<and>
   round (46875 / binary64 (2343164208947763 / 10 ^ 14)) = 2000"
  by code_simp

lemma plan_at_first_names:
  "map name (activities (hd (dayPlans (plan_at e)))) =
     map (\<lambda>i. generateActivityName ''Goa'' ''Arrival & City Exploration'' i e)
       [0..<activityCount e]"
  using first_day_names[OF plan_at_Inr, of e] by (simp add: request_at_def)

lemma plan_at_names_80:
  "map name (activities (hd (dayPlans (plan_at 80)))) =
     [''Private Goa Walking Tour'', ''Private Historic City Center Visit'',
      ''Private Local Orientation & Welcome Dinner'', ''Private Sunset Viewpoint Tour'',
      ''Private Goa Walking Tour'']"
proof -
  have up: "[0..<5] = [0, 1, 2, 3, 4]" by code_simp
  have cnt: "activityCount 80 = 5" by (simp add: activityCount_def)
  show ?thesis
    unfolding plan_at_first_names cnt up
    by (simp add: generateActivityName_def arrival_names)
qed

lemma plan_at_names_60:
  "map name (activities (hd (dayPlans (plan_at 60)))) =
     [''Premium Goa Walking Tour'', ''Premium Historic City Center Visit'',
      ''Premium Local Orientation & Welcome Dinner'', ''Premium Sunset Viewpoint Tour'']"
proof -
  have up: "[0..<4] = [0, 1, 2, 3]" by code_simp
  have cnt: "activityCount 60 = 4" by (simp add: activityCount_def)
  show ?thesis
    unfolding plan_at_first_names cnt up
    by (simp add: generateActivityName_def arrival_names)
qed

lemma plan_at_names_30:
  "map name (activities (hd (dayPlans (plan_at 30)))) =
     [''Goa Walking Tour'', ''Historic City Center Visit'',
      ''Local Orientation & Welcome Dinner'', ''Sunset Viewpoint Tour'']"
proof -
  have up: "[0..<4] = [0, 1, 2, 3]" by code_simp
  have cnt: "activityCount 30 = 4" by (simp add: activityCount_def)
  show ?thesis
    unfolding plan_at_first_names cnt up
    by (simp add: generateActivityName_def arrival_names)
qed

lemma paris_overview:
  "generateOverview ''Paris'' 5 25 =
     ''Experience the best of Paris in this carefully crafted 5-day budget-friendly adventure. From iconic landmarks to hidden gems, this itinerary balances must-see attractions with authentic local experiences.''"
  by code_simp

section \<open>The claims\<close>

subsection \<open>C1: cost roll-ups\<close>

text \<open>
  C1. For every well-formed request (a budget above zero, a party size that is a positive
  integer, an experience level between 0 and 100) and every outcome of the random draws,
  the generated plan has exactly one hotel, and the sums and the quotient that the source
  computes in binary64 arithmetic are exact: \<open>totalCost\<close> is the sum of the days'
  \<open>estimatedCost\<close> plus the hotel's nightly price times \<open>totalDays\<close>, \<open>costPerPerson\<close> is
  \<open>totalCost\<close> divided by the party size and rounded to the nearest unit, and every day's
  \<open>estimatedCost\<close> is the sum of the costs of that day's activities.
\<close>

theorem cost_rollup_exact:
  assumes "0 < budget f" and "people f \<in> \<int>" and "1 \<le> people f"
    and "0 \<le> experienceType f" and "experienceType f \<le> 100"
    and "generateMockTripPlan rnd n f = Inr plan"
  shows "(\<exists>h. hotels plan = [h] \<and>
              totalCost plan =
                sum_list (map estimatedCost (dayPlans plan)) +
                of_int (pricePerNight h * totalDays plan)) \<and>
         costPerPerson plan = Rounded (round (totalCost plan / people f)) \<and>
         (\<forall>dp \<in> set (dayPlans plan).
             estimatedCost dp = of_int (sum_list (map cost (activities dp))))"
proof -
  let ?e = "experienceType f"
  let ?m = "luxuryMultiplier ?e"
  note g = assms(6)
  have m: "1 \<le> ?m" "?m \<le> 2" using luxuryMultiplier_bounds[OF assms(4,5)] by simp_all
  obtain h where gh: "generateHotels (destination f) ?e ?m = [h]"
    using generateHotels_single by blast
  then have h: "hotels plan = [h]" using plan_hotels[OF g] by simp
  have hp: "0 \<le> pricePerNight h" "pricePerNight h \<le> 30000"
    using generateHotels_price_bounds[OF m gh] by simp_all
  have days: "3 \<le> totalDays plan" "totalDays plan \<le> 14"
    unfolding plan_totalDays[OF g] by simp_all
  define S :: "DayPlan \<Rightarrow> int" where "S = (\<lambda>dp. sum_list (map cost (activities dp)))"
  have day: "estimatedCost dp = of_int (S dp) \<and> 0 \<le> S dp \<and> S dp \<le> 35000"
    if "dp \<in> set (dayPlans plan)" for dp
  proof -
    from plan_day_cases[OF g that] obtain k n' where
      "dp = fst (newDayPlan rnd (destination f) ?e ?m k n')" by blast
    then show ?thesis
      using newDayPlan_estimatedCost_exact[OF m, of rnd "destination f" ?e k n']
      by (simp add: S_def)
  qed
  have S0: "0 \<le> S dp" if "dp \<in> set (dayPlans plan)" for dp using day[OF that] by simp
  have S1: "S dp \<le> 35000" if "dp \<in> set (dayPlans plan)" for dp using day[OF that] by simp
  have len: "length (dayPlans plan) = nat (totalDays plan)"
    unfolding plan_dayPlans[OF g] by simp
  have all: "\<forall>dp \<in> set (dayPlans plan).
               estimatedCost dp = of_int (S dp) \<and> 0 \<le> S dp \<and> S dp \<le> 35000"
    using day by blast
  have small: "(0::int) + 35000 * int (length (dayPlans plan)) < 2 ^ 53"
    using len days by simp
  have fold: "foldl (\<lambda>sum dp. binary64 (sum + estimatedCost dp)) (of_int 0) (dayPlans plan) =
                of_int (0 + sum_list (map S (dayPlans plan)))"
    by (rule foldl_binary64_sum[where B = 35000, OF all _ small]) simp
  define D where "D = sum_list (map S (dayPlans plan))"
  have D0: "0 \<le> D" unfolding D_def by (rule sum_list_nonneg) (use S0 in auto)
  have "D \<le> sum_list (map (\<lambda>dp. 35000) (dayPlans plan))"
    unfolding D_def by (rule sum_list_mono) (use S1 in auto)
  also have "\<dots> = 35000 * int (length (dayPlans plan))" by (simp add: sum_list_triv)
  also have "\<dots> \<le> 490000" using len days by simp
  finally have D1: "D \<le> 490000" .
  have me: "map estimatedCost (dayPlans plan) = map (\<lambda>dp. of_int (S dp)) (dayPlans plan)"
    by (rule map_cong) (use day in simp_all)
  have sumE: "sum_list (map estimatedCost (dayPlans plan)) = of_int D"
    unfolding me D_def by (rule sum_list_of_int)
  define H where "H = pricePerNight h * totalDays plan"
  have H0: "0 \<le> H" unfolding H_def using hp days by simp
  have "H \<le> 30000 * 14" unfolding H_def using hp days by (intro mult_mono) simp_all
  then have H1: "H \<le> 420000" by simp
  have prod: "binary64 (of_int (pricePerNight h) * of_int (totalDays plan)) = of_int H"
    using binary64_of_int[of H] H0 H1 by (simp add: H_def)
  have tot: "totalCost plan = of_int (D + H)"
    unfolding plan_totalCost[OF g h] prod
    using fold binary64_of_int[of "D + H"] D0 D1 H0 H1 by (simp add: D_def)
  have c1: "totalCost plan =
      sum_list (map estimatedCost (dayPlans plan)) + of_int (pricePerNight h * totalDays plan)"
    unfolding tot sumE by (simp add: H_def)
  from assms(2) obtain p where p: "people f = of_int p" by (rule Ints_cases)
  with assms(3) have p1: "1 \<le> p" by simp
  have "round (binary64 (of_int (D + H) / of_int p)) = round (of_int (D + H) / of_int p :: rat)"
    by (rule round_binary64_quotient) (use D0 D1 H0 H1 p1 in simp_all)
  then have c2: "costPerPerson plan = Rounded (round (totalCost plan / people f))"
    unfolding plan_costPerPerson[OF g] tot p using p1 by (simp add: round_quotient_def)
  have c3: "estimatedCost dp = of_int (sum_list (map cost (activities dp)))"
    if "dp \<in> set (dayPlans plan)" for dp
    using day[OF that] by (simp add: S_def)
  from h c1 c2 c3 show ?thesis by blast
qed

theorem cost_rollup_exact_witness:
  "0 < budget paris_request \<and> people paris_request \<in> \<int> \<and> 1 \<le> people paris_request \<and>
   0 \<le> experienceType paris_request \<and> experienceType paris_request \<le> 100 \<and>
   generateMockTripPlan half_source 0 paris_request = Inr paris_plan \<and>
   map pricePerNight (hotels paris_plan) = [1875] \<and>
   totalDays paris_plan = 5 \<and>
   map estimatedCost (dayPlans paris_plan) = [7500, 7500, 7500, 7500, 7500] \<and>
   map cost (activities (hd (dayPlans paris_plan))) = [2500, 2500, 2500] \<and>
   totalCost paris_plan = 46875 \<and>
   costPerPerson paris_plan = Rounded 23438 \<and>
   totalCost paris_plan =
     sum_list (map estimatedCost (dayPlans paris_plan)) +
     of_int (pricePerNight (hd (hotels paris_plan)) * totalDays paris_plan) \<and>
   costPerPerson paris_plan = Rounded (round (totalCost paris_plan / people paris_request)) \<and>
   estimatedCost (hd (dayPlans paris_plan)) =
     of_int (sum_list (map cost (activities (hd (dayPlans paris_plan)))))"
proof -
  have h1: "0 < budget paris_request" by (simp add: paris_request_def)
  have h2: "people paris_request \<in> \<int>" by (simp add: paris_request_def)
  have h3: "1 \<le> people paris_request" by (simp add: paris_request_def)
  have h4: "0 \<le> experienceType paris_request" by (simp add: paris_request_def)
  have h5: "experienceType paris_request \<le> 100" by (simp add: paris_request_def)
  note g = paris_plan_Inr
  note v1 = paris_plan_price
  note v2 = paris_plan_totalDays
  note mem = paris_plan_first_day
  note r = cost_rollup_exact[OF h1 h2 h3 h4 h5 g]
  from r have days: "\<forall>dp \<in> set (dayPlans paris_plan).
      estimatedCost dp = of_int (sum_list (map cost (activities dp)))" by blast
  have "map estimatedCost (dayPlans paris_plan) =
        map (\<lambda>dp. of_int (sum_list (map cost (activities dp)))) (dayPlans paris_plan)"
    by (rule map_cong) (use days in simp_all)
  also have "\<dots> = map (\<lambda>cs. of_int (sum_list cs)) (map (map cost \<circ> activities) (dayPlans paris_plan))"
    by (simp add: comp_def)
  also have "\<dots> = [7500, 7500, 7500, 7500, 7500]"
    unfolding paris_plan_costs by simp
  finally have v3: "map estimatedCost (dayPlans paris_plan) = [7500, 7500, 7500, 7500, 7500]" .
  have "map (map cost \<circ> activities) (dayPlans paris_plan) \<noteq> []"
    unfolding paris_plan_costs by simp
  then have "hd (map (map cost \<circ> activities) (dayPlans paris_plan)) =
             map cost (activities (hd (dayPlans paris_plan)))"
    by (simp add: hd_map)
  then have v4: "map cost (activities (hd (dayPlans paris_plan))) = [2500, 2500, 2500]"
    unfolding paris_plan_costs by simp
  from r obtain h where hh: "hotels paris_plan = [h]"
    and tot: "totalCost paris_plan =
      sum_list (map estimatedCost (dayPlans paris_plan)) +
      of_int (pricePerNight h * totalDays paris_plan)"
    by blast
  from hh v1 have ph: "pricePerNight h = 1875" by simp
  from hh tot have c1: "totalCost paris_plan =
     sum_list (map estimatedCost (dayPlans paris_plan)) +
     of_int (pricePerNight (hd (hotels paris_plan)) * totalDays paris_plan)" by simp
  have v5: "totalCost paris_plan = 46875" unfolding tot v3 ph v2 by simp
  from r have c2: "costPerPerson paris_plan =
      Rounded (round (totalCost paris_plan / people paris_request))" by blast
  have "round (46875 / 2 :: rat) = 23438" by (simp add: round_def)
  then have v6: "costPerPerson paris_plan = Rounded 23438"
    unfolding c2 v5 by (simp add: paris_request_def)
  from days mem have c3: "estimatedCost (hd (dayPlans paris_plan)) =
     of_int (sum_list (map cost (activities (hd (dayPlans paris_plan)))))" by blast
  show ?thesis
    by (intro conjI) (rule h1 h2 h3 h4 h5 g v1 v2 v3 v4 v5 v6 c1 c2 c3)+
qed

subsection \<open>C2: the day count\<close>

text \<open>
  C2. For every budget, generation succeeds with
  \<open>totalDays = clamp (floor (budget / 8000)) 3 14\<close>, whatever the other fields of the
  request and the random draws are; a budget of 5000 gives 3 days, 64000 gives 8 days and
  1000000 gives 14 days; replacing the date leaves the day count as it is.
\<close>

theorem totalDays_clamp:
  "(\<exists>plan. generateMockTripPlan rnd n f = Inr plan \<and>
            totalDays plan = clamp_spec \<lfloor>budget f / 8000\<rfloor> 3 14) \<and>
   (\<exists>plan. generateMockTripPlan rnd n (f\<lparr>date := dt\<rparr>) = Inr plan \<and>
            totalDays plan = clamp_spec \<lfloor>budget f / 8000\<rfloor> 3 14) \<and>
   (\<exists>plan. generateMockTripPlan rnd n (f\<lparr>budget := 5000\<rparr>) = Inr plan \<and> totalDays plan = 3) \<and>
   (\<exists>plan. generateMockTripPlan rnd n (f\<lparr>budget := 64000\<rparr>) = Inr plan \<and> totalDays plan = 8) \<and>
   (\<exists>plan. generateMockTripPlan rnd n (f\<lparr>budget := 1000000\<rparr>) = Inr plan \<and> totalDays plan = 14)"
proof -
  have gen: "\<exists>plan. generateMockTripPlan rnd n g = Inr plan \<and>
                totalDays plan = clamp_spec \<lfloor>budget g / 8000\<rfloor> 3 14" for g
    unfolding generateMockTripPlan_Inr by (simp add: clamp_spec_def)
  have a: "\<exists>plan. generateMockTripPlan rnd n (f\<lparr>budget := 5000\<rparr>) = Inr plan \<and> totalDays plan = 3"
    unfolding generateMockTripPlan_Inr by simp
  have b: "\<exists>plan. generateMockTripPlan rnd n (f\<lparr>budget := 64000\<rparr>) = Inr plan \<and> totalDays plan = 8"
    unfolding generateMockTripPlan_Inr by simp
  have c: "\<exists>plan. generateMockTripPlan rnd n (f\<lparr>budget := 1000000\<rparr>) = Inr plan \<and>
             totalDays plan = 14"
    unfolding generateMockTripPlan_Inr by simp
  have d: "\<exists>plan. generateMockTripPlan rnd n (f\<lparr>date := dt\<rparr>) = Inr plan \<and>
             totalDays plan = clamp_spec \<lfloor>budget f / 8000\<rfloor> 3 14"
    using gen[of "f\<lparr>date := dt\<rparr>"] by simp
  from gen[of f] d a b c show ?thesis by blast
qed

subsection \<open>C3: the hotel and its nightly price\<close>

text \<open>
  C3. For every experience level between 0 and 100, the generated plan holds exactly one
  hotel, whose nightly price is the base price of the level's band (1500, 3500, 7500 or
  15000, with band boundaries at 25, 50 and 75) times \<open>1 + level / 100\<close>, rounded: as
  the source computes the product, in binary64 arithmetic, for every level, and as the
  exact product for every level that is an integer, as the data model has it.
\<close>

theorem hotel_price_by_band:
  assumes "0 \<le> experienceType f" and "experienceType f \<le> 100"
  shows "\<exists>plan h. generateMockTripPlan rnd n f = Inr plan \<and> hotels plan = [h] \<and>
           pricePerNight h =
             round (binary64 (basePrice_spec (band_spec (experienceType f)) *
                              binary64 (1 + binary64 (experienceType f / 100)))) \<and>
           (experienceType f \<in> \<int> \<longrightarrow>
              pricePerNight h =
                round (basePrice_spec (band_spec (experienceType f)) *
                       (1 + experienceType f / 100)))"
proof -
  let ?e = "experienceType f"
  define K where "K = basePrice_spec (band_spec ?e)"
  obtain plan where g: "generateMockTripPlan rnd n f = Inr plan"
    unfolding generateMockTripPlan_Inr by blast
  obtain h where gh: "generateHotels (destination f) ?e (luxuryMultiplier ?e) = [h]"
    using generateHotels_single by blast
  then have h: "hotels plan = [h]" using plan_hotels[OF g] by simp
  have Kif: "K = (if ?e \<le> 25 then 1500 else if ?e \<le> 50 then 3500
                  else if ?e \<le> 75 then 7500 else 15000)"
    using assms by (simp add: K_def band_spec_def)
  have "map pricePerNight [h] = [round (binary64 (K * luxuryMultiplier ?e))]"
    unfolding gh[symmetric] generateHotels_price Kif ..
  then have code: "pricePerNight h = round (binary64 (K * binary64 (1 + binary64 (?e / 100))))"
    by (simp add: luxuryMultiplier_def)
  have exact: "pricePerNight h = round (K * (1 + ?e / 100))" if "?e \<in> \<int>"
  proof -
    from that obtain k where k: "?e = of_int k" by (rule Ints_cases)
    have K0: "0 < K" "K \<le> 15000" by (simp_all add: Kif)
    have "\<exists>N. K * (1 + ?e / 100) = of_int N"
    proof -
      have "K = of_int 1500 \<or> K = of_int 3500 \<or> K = of_int 7500 \<or> K = of_int 15000"
        by (simp add: Kif)
      then consider "K = of_int 1500" | "K = of_int 3500" | "K = of_int 7500"
        | "K = of_int 15000" by blast
      then show ?thesis
      proof cases
        case 1
        then have "K * (1 + ?e / 100) = of_int (1500 + 15 * k)" by (simp add: k)
        then show ?thesis ..
      next
        case 2
        then have "K * (1 + ?e / 100) = of_int (3500 + 35 * k)" by (simp add: k)
        then show ?thesis ..
      next
        case 3
        then have "K * (1 + ?e / 100) = of_int (7500 + 75 * k)" by (simp add: k)
        then show ?thesis ..
      next
        case 4
        then have "K * (1 + ?e / 100) = of_int (15000 + 150 * k)" by (simp add: k)
        then show ?thesis ..
      qed
    qed
    then obtain N where N: "K * (1 + ?e / 100) = of_int N" ..
    have "round (binary64 (K * binary64 (1 + binary64 (?e / 100)))) = N"
      by (rule round_binary64_scaled[OF assms K0 N])
    then show ?thesis unfolding code N by simp
  qed
  from g h code exact show ?thesis unfolding K_def by blast
qed

theorem hotel_price_by_band_witness:
  "0 \<le> experienceType (request_at 60) \<and> experienceType (request_at 60) \<le> 100 \<and>
   experienceType (request_at 60) \<in> \<int> \<and>
   generateMockTripPlan mixed_source 0 (request_at 60) = Inr (plan_at 60) \<and>
   map hotel_name (hotels (plan_at 60)) = [''Goa Premium Resort''] \<and>
   map pricePerNight (hotels (plan_at 60)) = [12000] \<and>
   round (basePrice_spec (band_spec (experienceType (request_at 60))) *
          (1 + experienceType (request_at 60) / 100)) = 12000"
proof -
  have h1: "0 \<le> experienceType (request_at 60)" by (simp add: request_at_def)
  have h2: "experienceType (request_at 60) \<le> 100" by (simp add: request_at_def)
  have h3: "experienceType (request_at 60) \<in> \<int>" by (simp add: request_at_def)
  have g: "generateMockTripPlan mixed_source 0 (request_at 60) = Inr (plan_at 60)"
    by (rule plan_at_Inr)
  have v1: "map hotel_name (hotels (plan_at 60)) = [''Goa Premium Resort'']"
    unfolding plan_hotels[OF g] generateHotels_name by (simp add: request_at_def)
  from hotel_price_by_band[OF h1 h2, of mixed_source 0] g h3
  obtain h where hh: "hotels (plan_at 60) = [h]"
    and pr: "pricePerNight h =
       round (basePrice_spec (band_spec (experienceType (request_at 60))) *
              (1 + experienceType (request_at 60) / 100))"
    by auto
  have v: "round (basePrice_spec (band_spec (experienceType (request_at 60))) *
          (1 + experienceType (request_at 60) / 100)) = 12000"
    by (simp add: request_at_def band_spec_def)
  from hh pr v have v2: "map pricePerNight (hotels (plan_at 60)) = [12000]" by simp
  show ?thesis
    by (intro conjI) (rule h1 h2 h3 g v1 v2 v)+
qed

subsection \<open>C4: the Paris scenario\<close>

text \<open>
  C4, as stated, fails. The request for Paris with budget 40000, party size 2 and experience
  level 25 is in the first band of every test of the generator (\<open>experienceType \<le> 25\<close>):
  its hotel is the hostel at \<open>round (1500 * 1.25) = 1875\<close> a night, not the comfort-tier
  hotel at 4375, and each of its five days has 3 activities, not 4.
\<close>

theorem paris_scenario_counterexample:
  "generateMockTripPlan half_source 0 paris_request = Inr paris_plan \<and>
   totalDays paris_plan = 5 \<and>
   map hotel_name (hotels paris_plan) = [''Paris Backpacker's Haven''] \<and>
   map pricePerNight (hotels paris_plan) = [1875] \<and>
   map pricePerNight (hotels paris_plan) \<noteq> [4375] \<and>
   map (length \<circ> activities) (dayPlans paris_plan) = [3, 3, 3, 3, 3] \<and>
   4 \<notin> set (map (length \<circ> activities) (dayPlans paris_plan))"
proof -
  have g: "generateMockTripPlan half_source 0 paris_request = Inr paris_plan"
    by (rule paris_plan_Inr)
  have d: "totalDays paris_plan = 5" by (rule paris_plan_totalDays)
  have hn: "map hotel_name (hotels paris_plan) = [''Paris Backpacker's Haven'']"
    by (rule paris_plan_hotel_name)
  have pr: "map pricePerNight (hotels paris_plan) = [1875]" by (rule paris_plan_price)
  have ac: "map (length \<circ> activities) (dayPlans paris_plan) = [3, 3, 3, 3, 3]"
    by (rule paris_plan_lengths)
  have pr': "map pricePerNight (hotels paris_plan) \<noteq> [4375]" unfolding pr by simp
  have ac': "4 \<notin> set (map (length \<circ> activities) (dayPlans paris_plan))" unfolding ac by simp
  from g d hn pr pr' ac ac' show ?thesis by blast
qed

text \<open>
  C4, amended. For the request for Paris with budget 40000, party size 2 and experience
  level 25, with any date and any random draws, the plan has \<open>totalDays = 5\<close>, the
  budget-tier hotel with base price 1500 and multiplier 1.25, that is 1875 a night, and 3
  activities on each day, whose names are the candidates of the day's theme with no tier
  prefix.
\<close>

theorem paris_scenario_amended:
  "\<exists>plan h. generateMockTripPlan rnd n (paris_request\<lparr>date := dt\<rparr>) = Inr plan \<and>
     totalDays plan = 5 \<and>
     hotels plan = [h] \<and>
     hotel_name h = ''Paris Backpacker's Haven'' \<and>
     pricePerNight h = round (1500 * (1 + 25 / 100 :: rat)) \<and>
     pricePerNight h = 1875 \<and>
     map theme (dayPlans plan) =
       [''Arrival & City Exploration'', ''Cultural Heritage Tour'', ''Adventure & Nature'',
        ''Local Cuisine & Markets'', ''Art & Museums''] \<and>
     map (map name \<circ> activities) (dayPlans plan) =
       [[''Paris Walking Tour'', ''Historic City Center Visit'',
         ''Local Orientation & Welcome Dinner''],
        [''Heritage Sites & Monuments'', ''Traditional Dance Performance'',
         ''Local Art Gallery Visit''],
        [''Nature Hiking Trail'', ''Water Sports Adventure'', ''Wildlife Safari Tour''],
        [''Street Food Walking Tour'', ''Cooking Class Experience'', ''Local Market Exploration''],
        [''City Tour'', ''Local Experience'', ''Cultural Visit'']]"
proof -
  let ?f = "paris_request\<lparr>date := dt\<rparr>"
  obtain plan where plan: "generateMockTripPlan rnd n ?f = Inr plan"
    unfolding generateMockTripPlan_Inr by blast
  then have eq: "Inr plan = generateMockTripPlan rnd n ?f" by simp
  have f: "destination ?f = ''Paris''" "experienceType ?f = 25" "budget ?f = 40000"
    by (simp_all add: paris_request_def)
  have days: "totalDays plan = 5"
    using eq unfolding generateMockTripPlan_Inr by (simp add: f)
  have hs: "hotels plan = generateHotels ''Paris'' 25 (luxuryMultiplier 25)"
    using eq unfolding generateMockTripPlan_Inr by (simp add: f)
  obtain h where h: "hotels plan = [h]" using hs generateHotels_single[of "''Paris''" 25] by auto
  have hn: "hotel_name h = ''Paris Backpacker's Haven''"
    using h hs by (auto simp: generateHotels_def)
  have "map pricePerNight [h] = [round (binary64 (1500 * luxuryMultiplier 25))]"
    using generateHotels_price[of "''Paris''" 25 "luxuryMultiplier 25"] h hs by simp
  then have hp': "pricePerNight h = 1875"
    by (simp add: luxuryMultiplier_25 binary64_values)
  have hp: "pricePerNight h = round (1500 * (1 + 25 / 100 :: rat))"
    unfolding hp' by simp
  have cnt: "activityCount 25 = 3" by (simp add: activityCount_def)
  have up: "[1..5::int] = [1, 2, 3, 4, 5]" by code_simp
  have upn: "[0..<3] = [0, 1, 2]" by code_simp
  have dps: "dayPlans plan =
     map (\<lambda>k. fst (newDayPlan rnd ''Paris'' 25 (luxuryMultiplier 25) k (n + 2 * 3 * nat (k - 1))))
       [1, 2, 3, 4, 5]"
    using plan_dayPlans[OF plan] by (simp only: f days cnt up)
  have ths: "map theme (dayPlans plan) =
       [''Arrival & City Exploration'', ''Cultural Heritage Tour'', ''Adventure & Nature'',
        ''Local Cuisine & Markets'', ''Art & Museums'']"
    unfolding dps by (simp add: newDayPlan_theme themes_nth)
  have nm: "map name (activities (fst (newDayPlan rnd ''Paris'' 25 m k j))) =
      map (\<lambda>i. baseActivity ''Paris'' (themes ! nat ((k - 1) mod 8)) i) [0, 1, 2]" for m k j
    unfolding newDayPlan_names cnt upn by (simp add: generateActivityName_def newDayPlan_theme)
  have names: "map (map name \<circ> activities) (dayPlans plan) =
       [[''Paris Walking Tour'', ''Historic City Center Visit'',
         ''Local Orientation & Welcome Dinner''],
        [''Heritage Sites & Monuments'', ''Traditional Dance Performance'',
         ''Local Art Gallery Visit''],
        [''Nature Hiking Trail'', ''Water Sports Adventure'', ''Wildlife Safari Tour''],
        [''Street Food Walking Tour'', ''Cooking Class Experience'', ''Local Market Exploration''],
        [''City Tour'', ''Local Experience'', ''Cultural Visit'']]"
    unfolding dps
    by (simp add: nm themes_nth baseActivity_def baseActivities_def activities_table_def)
  show ?thesis
    by (rule exI[of _ plan], rule exI[of _ h], intro conjI)
       (rule plan days h hn hp hp' ths names)+
qed

subsection \<open>C5: the number of activities per day\<close>

text \<open>
  C5. For every experience level, generation succeeds and every day of the plan has 3
  activities when the level is at most 25, 4 when it is above 25 and at most 75, and 5 when
  it is above 75. The banding is coarser than the hotel bands: levels 30 and 60 lie in
  different hotel bands and have the same count.
\<close>

theorem activities_per_day:
  "(\<exists>plan. generateMockTripPlan rnd n f = Inr plan \<and>
      (\<forall>dp \<in> set (dayPlans plan).
          length (activities dp) =
            (if experienceType f \<le> 25 then 3 else if experienceType f \<le> 75 then 4 else 5))) \<and>
   band_spec 30 \<noteq> band_spec 60 \<and> activityCount 30 = activityCount 60"
proof -
  obtain plan where plan: "generateMockTripPlan rnd n f = Inr plan"
    unfolding generateMockTripPlan_Inr by blast
  have "length (activities dp) =
          (if experienceType f \<le> 25 then 3 else if experienceType f \<le> 75 then 4 else 5)"
    if "dp \<in> set (dayPlans plan)" for dp
  proof -
    from plan_day_cases[OF plan that] obtain k n' where
      "dp = fst (newDayPlan rnd (destination f) (experienceType f) (luxuryMultiplier (experienceType f)) k n')"
      by blast
    then show ?thesis by (simp add: newDayPlan_length activityCount_def)
  qed
  moreover have "band_spec 30 \<noteq> band_spec 60" by (simp add: band_spec_def)
  moreover have "activityCount 30 = activityCount 60" by (simp add: activityCount_def)
  ultimately show ?thesis using plan by blast
qed

theorem activities_per_day_witness:
  "generateMockTripPlan mixed_source 0 (request_at 80) = Inr (plan_at 80) \<and>
   map (length \<circ> activities) (dayPlans (plan_at 80)) = [5, 5, 5] \<and>
   hd (dayPlans (plan_at 80)) \<in> set (dayPlans (plan_at 80)) \<and>
   length (activities (hd (dayPlans (plan_at 80)))) =
     (if experienceType (request_at 80) \<le> 25 then 3
      else if experienceType (request_at 80) \<le> 75 then 4 else 5)"
proof -
  have g: "generateMockTripPlan mixed_source 0 (request_at 80) = Inr (plan_at 80)"
    by (rule plan_at_Inr)
  have v: "map (length \<circ> activities) (dayPlans (plan_at 80)) = [5, 5, 5]"
    using plan_at_lengths[of 80] by (simp add: activityCount_def)
  have mem: "hd (dayPlans (plan_at 80)) \<in> set (dayPlans (plan_at 80))"
    by (rule plan_at_first_day)
  from activities_per_day[of mixed_source 0 "request_at 80"] g
  have "\<forall>dp \<in> set (dayPlans (plan_at 80)).
          length (activities dp) =
            (if experienceType (request_at 80) \<le> 25 then 3
             else if experienceType (request_at 80) \<le> 75 then 4 else 5)"
    by auto
  with mem have "length (activities (hd (dayPlans (plan_at 80)))) =
     (if experienceType (request_at 80) \<le> 25 then 3
      else if experienceType (request_at 80) \<le> 75 then 4 else 5)" by blast
  with g v mem show ?thesis by blast
qed

subsection \<open>C6: the prefix of activity names\<close>

text \<open>
  C6. For every activity of every day of a generated plan: at experience level 80 its name
  starts with \<open>Private\<close> and a space; at level 60 its name starts with \<open>Premium\<close> and a
  space; at level 30 its name is a candidate of the day's theme, with nothing added. The
  prefixes exclude each other: above 75 the name is \<open>Private\<close>, a space and the candidate;
  above 50 and at most 75 it is \<open>Premium\<close>, a space and the candidate; at most 50 it is the
  candidate.
\<close>

theorem activity_name_prefix:
  assumes "generateMockTripPlan rnd n f = Inr plan"
    and "dp \<in> set (dayPlans plan)" and "a \<in> set (activities dp)"
  shows "(experienceType f = 80 \<longrightarrow> prefix ''Private '' (name a)) \<and>
         (experienceType f = 60 \<longrightarrow> prefix ''Premium '' (name a)) \<and>
         (experienceType f = 30 \<longrightarrow> name a \<in> set (baseActivities (destination f) (theme dp))) \<and>
         (75 < experienceType f \<longrightarrow>
            (\<exists>i. name a = ''Private '' @ baseActivity (destination f) (theme dp) i)) \<and>
         (50 < experienceType f \<and> experienceType f \<le> 75 \<longrightarrow>
            (\<exists>i. name a = ''Premium '' @ baseActivity (destination f) (theme dp) i)) \<and>
         (experienceType f \<le> 50 \<longrightarrow>
            (\<exists>i. name a = baseActivity (destination f) (theme dp) i))"
proof -
  let ?e = "experienceType f"
  from plan_activity_name[OF assms] obtain i where
    nm: "name a = generateActivityName (destination f) (theme dp) i ?e" by blast
  have hi: "name a = ''Private '' @ baseActivity (destination f) (theme dp) i" if "75 < ?e"
    using that by (simp add: nm generateActivityName_def)
  have mid: "name a = ''Premium '' @ baseActivity (destination f) (theme dp) i"
    if "50 < ?e" "?e \<le> 75"
    using that by (simp add: nm generateActivityName_def)
  have lo: "name a = baseActivity (destination f) (theme dp) i" if "?e \<le> 50"
    using that by (simp add: nm generateActivityName_def)
  have c80: "prefix ''Private '' (name a)" if "?e = 80"
    using hi that by simp
  have c60: "prefix ''Premium '' (name a)" if "?e = 60"
    using mid that by simp
  have c30: "name a \<in> set (baseActivities (destination f) (theme dp))" if "?e = 30"
    using lo that baseActivity_mem[of "destination f" "theme dp" i] by simp
  from hi mid lo c80 c60 c30 show ?thesis by blast
qed

theorem activity_name_prefix_witness:
  "generateMockTripPlan mixed_source 0 (request_at 80) = Inr (plan_at 80) \<and>
   generateMockTripPlan mixed_source 0 (request_at 60) = Inr (plan_at 60) \<and>
   generateMockTripPlan mixed_source 0 (request_at 30) = Inr (plan_at 30) \<and>
   map name (activities (hd (dayPlans (plan_at 80)))) =
     [''Private Goa Walking Tour'', ''Private Historic City Center Visit'',
      ''Private Local Orientation & Welcome Dinner'', ''Private Sunset Viewpoint Tour'',
      ''Private Goa Walking Tour''] \<and>
   map name (activities (hd (dayPlans (plan_at 60)))) =
     [''Premium Goa Walking Tour'', ''Premium Historic City Center Visit'',
      ''Premium Local Orientation & Welcome Dinner'', ''Premium Sunset Viewpoint Tour''] \<and>
   map name (activities (hd (dayPlans (plan_at 30)))) =
     [''Goa Walking Tour'', ''Historic City Center Visit'',
      ''Local Orientation & Welcome Dinner'', ''Sunset Viewpoint Tour''] \<and>
   prefix ''Private '' (name (hd (activities (hd (dayPlans (plan_at 80)))))) \<and>
   prefix ''Premium '' (name (hd (activities (hd (dayPlans (plan_at 60)))))) \<and>
   name (hd (activities (hd (dayPlans (plan_at 30))))) \<in>
     set (baseActivities (destination (request_at 30)) (theme (hd (dayPlans (plan_at 30)))))"
proof -
  have g80: "generateMockTripPlan mixed_source 0 (request_at 80) = Inr (plan_at 80)"
    by (rule plan_at_Inr)
  have g60: "generateMockTripPlan mixed_source 0 (request_at 60) = Inr (plan_at 60)"
    by (rule plan_at_Inr)
  have g30: "generateMockTripPlan mixed_source 0 (request_at 30) = Inr (plan_at 30)"
    by (rule plan_at_Inr)
  have v80: "map name (activities (hd (dayPlans (plan_at 80)))) =
     [''Private Goa Walking Tour'', ''Private Historic City Center Visit'',
      ''Private Local Orientation & Welcome Dinner'', ''Private Sunset Viewpoint Tour'',
      ''Private Goa Walking Tour'']" by (rule plan_at_names_80)
  have v60: "map name (activities (hd (dayPlans (plan_at 60)))) =
     [''Premium Goa Walking Tour'', ''Premium Historic City Center Visit'',
      ''Premium Local Orientation & Welcome Dinner'', ''Premium Sunset Viewpoint Tour'']"
    by (rule plan_at_names_60)
  have v30: "map name (activities (hd (dayPlans (plan_at 30)))) =
     [''Goa Walking Tour'', ''Historic City Center Visit'',
      ''Local Orientation & Welcome Dinner'', ''Sunset Viewpoint Tour'']"
    by (rule plan_at_names_30)
  have m80: "hd (dayPlans (plan_at 80)) \<in> set (dayPlans (plan_at 80))"
    by (rule plan_at_first_day)
  have m60: "hd (dayPlans (plan_at 60)) \<in> set (dayPlans (plan_at 60))"
    by (rule plan_at_first_day)
  have m30: "hd (dayPlans (plan_at 30)) \<in> set (dayPlans (plan_at 30))"
    by (rule plan_at_first_day)
  have a80: "hd (activities (hd (dayPlans (plan_at 80)))) \<in> set (activities (hd (dayPlans (plan_at 80))))"
    using v80 by (cases "activities (hd (dayPlans (plan_at 80)))") simp_all
  have a60: "hd (activities (hd (dayPlans (plan_at 60)))) \<in> set (activities (hd (dayPlans (plan_at 60))))"
    using v60 by (cases "activities (hd (dayPlans (plan_at 60)))") simp_all
  have a30: "hd (activities (hd (dayPlans (plan_at 30)))) \<in> set (activities (hd (dayPlans (plan_at 30))))"
    using v30 by (cases "activities (hd (dayPlans (plan_at 30)))") simp_all
  have e80: "experienceType (request_at 80) = 80" by (simp add: request_at_def)
  have e60: "experienceType (request_at 60) = 60" by (simp add: request_at_def)
  have e30: "experienceType (request_at 30) = 30" by (simp add: request_at_def)
  from activity_name_prefix[OF g80 m80 a80] e80
  have c80: "prefix ''Private '' (name (hd (activities (hd (dayPlans (plan_at 80))))))" by blast
  from activity_name_prefix[OF g60 m60 a60] e60
  have c60: "prefix ''Premium '' (name (hd (activities (hd (dayPlans (plan_at 60))))))" by blast
  from activity_name_prefix[OF g30 m30 a30] e30
  have c30: "name (hd (activities (hd (dayPlans (plan_at 30))))) \<in>
     set (baseActivities (destination (request_at 30)) (theme (hd (dayPlans (plan_at 30)))))"
    by blast
  show ?thesis
    by (intro conjI) (rule g80 g60 g30 v80 v60 v30 c80 c60 c30)+
qed

subsection \<open>C7: the tips\<close>

text \<open>
  C7. The tips list has length 5 when the experience level is at most 50 (as at 10), 7 when
  it is above 50 and at most 75 (as at 60), and 8 when it is above 75 (as at 90). The five
  general tips are a prefix of every tips list, and the list of a lower level is a prefix
  of the list of a higher level: tips are appended, never replaced. The plan carries this
  list.
\<close>

theorem tips_accumulate:
  "length (generateTips dest e) = (if e \<le> 50 then 5 else if e \<le> 75 then 7 else 8) \<and>
   length (generateTips dest 10) = 5 \<and>
   length (generateTips dest 60) = 7 \<and>
   length (generateTips dest 90) = 8 \<and>
   length (general_tips dest) = 5 \<and>
   prefix (general_tips dest) (generateTips dest e) \<and>
   (e \<le> e' \<longrightarrow> prefix (generateTips dest e) (generateTips dest e')) \<and>
   (\<exists>plan. generateMockTripPlan rnd n f = Inr plan \<and>
            tips plan = generateTips (destination f) (experienceType f))"
proof -
  have len: "length (generateTips dest x) = (if x \<le> 50 then 5 else if x \<le> 75 then 7 else 8)" for x
    by (simp add: generateTips_def general_tips_def Let_def)
  have l10: "length (generateTips dest 10) = 5" by (simp add: len)
  have l60: "length (generateTips dest 60) = 7" by (simp add: len)
  have l90: "length (generateTips dest 90) = 8" by (simp add: len)
  have lg: "length (general_tips dest) = 5" by (simp add: general_tips_def)
  have pg: "prefix (general_tips dest) (generateTips dest e)"
    by (simp add: generateTips_def Let_def)
  have mono: "prefix (generateTips dest e) (generateTips dest e')" if "e \<le> e'"
    using that by (simp add: generateTips_def Let_def)
  have pl: "\<exists>plan. generateMockTripPlan rnd n f = Inr plan \<and>
            tips plan = generateTips (destination f) (experienceType f)"
    unfolding generateMockTripPlan_Inr by simp
  from len[of e] l10 l60 l90 lg pg mono pl show ?thesis by blast
qed

theorem tips_accumulate_witness:
  "(60 :: rat) \<le> 90 \<and>
   prefix (generateTips ''Goa'' 60) (generateTips ''Goa'' 90) \<and>
   length (generateTips ''Goa'' 60) = 7 \<and>
   length (generateTips ''Goa'' 90) = 8 \<and>
   generateMockTripPlan mixed_source 0 (request_at 90) = Inr (plan_at 90) \<and>
   length (tips (plan_at 90)) = 8"
proof -
  have h: "(60 :: rat) \<le> 90" by simp
  note r = tips_accumulate[of "''Goa''" 60 90 mixed_source 0 "request_at 90"]
  from r h have c1: "prefix (generateTips ''Goa'' 60) (generateTips ''Goa'' 90)" by blast
  from r have c2: "length (generateTips ''Goa'' 60) = 7" by simp
  from r have c3: "length (generateTips ''Goa'' 90) = 8" by blast
  have g: "generateMockTripPlan mixed_source 0 (request_at 90) = Inr (plan_at 90)"
    by (rule plan_at_Inr)
  have c4: "length (tips (plan_at 90)) = 8"
    unfolding plan_tips[OF g] using c3 by (simp add: request_at_def)
  from h c1 c2 c3 g c4 show ?thesis by blast
qed

subsection \<open>C8: generation never fails\<close>

text \<open>
  C8. For every well-formed request (budget above zero, party size at least one) the
  generation call returns the success variant, with no error message, carrying a fully
  populated plan: the request's destination, between 3 and 14 days, one hotel, a day plan
  for each day from 1 to \<open>totalDays\<close>, at least 3 activities on every day, an overview and
  at least 5 tips.
\<close>

theorem generation_never_fails:
  assumes "0 < budget f" and "1 \<le> people f"
  shows "\<exists>plan. generateTripPlan rnd n f = \<lparr>success = True, data = Some plan, error = None\<rparr> \<and>
           generateMockTripPlan rnd n f = Inr plan \<and>
           plan_destination plan = destination f \<and>
           3 \<le> totalDays plan \<and> totalDays plan \<le> 14 \<and>
           length (hotels plan) = 1 \<and>
           map day (dayPlans plan) = [1..totalDays plan] \<and>
           (\<forall>dp \<in> set (dayPlans plan). 3 \<le> length (activities dp)) \<and>
           overview plan \<noteq> [] \<and>
           5 \<le> length (tips plan)"
proof -
  obtain plan where plan: "generateMockTripPlan rnd n f = Inr plan"
    unfolding generateMockTripPlan_Inr by blast
  then have eq: "Inr plan = generateMockTripPlan rnd n f" by simp
  have res: "generateTripPlan rnd n f = \<lparr>success = True, data = Some plan, error = None\<rparr>"
    by (simp add: generateTripPlan_def plan)
  have dst: "plan_destination plan = destination f"
    using eq unfolding generateMockTripPlan_Inr by simp
  have lo: "3 \<le> totalDays plan" using eq unfolding generateMockTripPlan_Inr by simp
  have hi: "totalDays plan \<le> 14" using eq unfolding generateMockTripPlan_Inr by simp
  have hs: "length (hotels plan) = 1"
    using eq generateHotels_single[of "destination f" "experienceType f" "luxuryMultiplier (experienceType f)"]
    unfolding generateMockTripPlan_Inr by auto
  have ds: "map day (dayPlans plan) = [1..totalDays plan]"
    unfolding plan_dayPlans[OF plan] by (simp add: comp_def newDayPlan_day)
  have acts: "3 \<le> length (activities dp)" if "dp \<in> set (dayPlans plan)" for dp
  proof -
    from plan_day_cases[OF plan that] obtain k n' where
      "dp = fst (newDayPlan rnd (destination f) (experienceType f) (luxuryMultiplier (experienceType f)) k n')"
      by blast
    then show ?thesis by (simp add: newDayPlan_length activityCount_def)
  qed
  have ov: "overview plan \<noteq> []"
    using eq unfolding generateMockTripPlan_Inr by (simp add: generateOverview_nonempty)
  have tp: "5 \<le> length (tips plan)"
    using eq unfolding generateMockTripPlan_Inr
    by (simp add: generateTips_def general_tips_def Let_def)
  from res plan dst lo hi hs ds acts ov tp show ?thesis by blast
qed

theorem generation_never_fails_witness:
  "0 < budget paris_request \<and> 1 \<le> people paris_request \<and>
   generateTripPlan half_source 0 paris_request =
     \<lparr>success = True, data = Some paris_plan, error = None\<rparr> \<and>
   plan_destination paris_plan = ''Paris'' \<and>
   totalDays paris_plan = 5 \<and>
   map day (dayPlans paris_plan) = [1, 2, 3, 4, 5] \<and>
   length (hotels paris_plan) = 1 \<and>
   3 \<le> length (activities (hd (dayPlans paris_plan))) \<and>
   overview paris_plan =
     ''Experience the best of Paris in this carefully crafted 5-day budget-friendly adventure. From iconic landmarks to hidden gems, this itinerary balances must-see attractions with authentic local experiences.''"
proof -
  have h1: "0 < budget paris_request" by (simp add: paris_request_def)
  have h2: "1 \<le> people paris_request" by (simp add: paris_request_def)
  have g: "generateMockTripPlan half_source 0 paris_request = Inr paris_plan"
    by (rule paris_plan_Inr)
  from generation_never_fails[OF h1 h2, of half_source 0] g
  have r: "generateTripPlan half_source 0 paris_request =
             \<lparr>success = True, data = Some paris_plan, error = None\<rparr> \<and>
           length (hotels paris_plan) = 1 \<and>
           (\<forall>dp \<in> set (dayPlans paris_plan). 3 \<le> length (activities dp))"
    by auto
  have v1: "plan_destination paris_plan = ''Paris''"
    unfolding plan_destination_eq[OF g] by (simp add: paris_request_def)
  have v2: "totalDays paris_plan = 5" by (rule paris_plan_totalDays)
  have up: "[1..5::int] = [1, 2, 3, 4, 5]" by code_simp
  have v3: "map day (dayPlans paris_plan) = [1, 2, 3, 4, 5]"
    unfolding plan_dayPlans[OF g] v2 up by (simp add: newDayPlan_day)
  have v4: "overview paris_plan =
     ''Experience the best of Paris in this carefully crafted 5-day budget-friendly adventure. From iconic landmarks to hidden gems, this itinerary balances must-see attractions with authentic local experiences.''"
    unfolding plan_overview[OF g] v2 using paris_overview by (simp add: paris_request_def)
  have mem: "hd (dayPlans paris_plan) \<in> set (dayPlans paris_plan)"
    using v3 by (cases "dayPlans paris_plan") simp_all
  from r mem have c: "3 \<le> length (activities (hd (dayPlans paris_plan)))" by blast
  from r have r1: "generateTripPlan half_source 0 paris_request =
             \<lparr>success = True, data = Some paris_plan, error = None\<rparr>" by blast
  from r have r2: "length (hotels paris_plan) = 1" by blast
  show ?thesis
    by (intro conjI) (rule h1 h2 r1 v1 v2 v3 r2 c v4)+
qed

subsection \<open>C9: the date has no influence\<close>

text \<open>
  C9. Two requests that agree on destination, party size, budget and experience level
  (and so differ at most in the date) give, on the same random draws, the same plan and
  the same result; replacing the date of a request changes nothing. Two requests with the
  same budget give the same day count, whatever their dates, destinations and random
  draws.
\<close>

theorem date_never_matters:
  "(destination f = destination g \<and> people f = people g \<and> budget f = budget g \<and>
    experienceType f = experienceType g \<longrightarrow>
      generateMockTripPlan rnd n f = generateMockTripPlan rnd n g \<and>
      generateTripPlan rnd n f = generateTripPlan rnd n g) \<and>
   generateMockTripPlan rnd n (f\<lparr>date := dt\<rparr>) = generateMockTripPlan rnd n f \<and>
   (budget f = budget g \<longrightarrow>
      (\<exists>p q. generateMockTripPlan rnd n f = Inr p \<and> generateMockTripPlan rnd' n' g = Inr q \<and>
             totalDays p = totalDays q))"
proof -
  have same: "generateMockTripPlan rnd n f = generateMockTripPlan rnd n g"
    if "destination f = destination g" "people f = people g" "budget f = budget g"
       "experienceType f = experienceType g"
    using that by (simp add: generateMockTripPlan_def)
  have same': "generateTripPlan rnd n f = generateTripPlan rnd n g"
    if "destination f = destination g" "people f = people g" "budget f = budget g"
       "experienceType f = experienceType g"
    using same[OF that] by (simp add: generateTripPlan_def)
  have upd: "generateMockTripPlan rnd n (f\<lparr>date := dt\<rparr>) = generateMockTripPlan rnd n f"
    by (simp add: generateMockTripPlan_def)
  have days: "\<exists>p q. generateMockTripPlan rnd n f = Inr p \<and> generateMockTripPlan rnd' n' g = Inr q \<and>
             totalDays p = totalDays q" if "budget f = budget g"
    unfolding generateMockTripPlan_Inr using that by simp
  from same same' upd days show ?thesis by blast
qed

theorem date_never_matters_witness:
  "date paris_request \<noteq> date paris_dated_request \<and>
   destination paris_request = destination paris_dated_request \<and>
   people paris_request = people paris_dated_request \<and>
   budget paris_request = budget paris_dated_request \<and>
   experienceType paris_request = experienceType paris_dated_request \<and>
   generateMockTripPlan half_source 0 paris_dated_request = Inr paris_plan \<and>
   generateMockTripPlan half_source 0 paris_request = Inr paris_plan \<and>
   destination paris_request \<noteq> destination rome_request \<and>
   date paris_request \<noteq> date rome_request \<and>
   budget paris_request = budget rome_request \<and>
   totalDays (projr (generateMockTripPlan mixed_source 7 rome_request)) = totalDays paris_plan"
proof -
  have d: "date paris_request \<noteq> date paris_dated_request"
    by (simp add: paris_request_def paris_dated_request_def)
  have h1: "destination paris_request = destination paris_dated_request"
    by (simp add: paris_request_def paris_dated_request_def)
  have h2: "people paris_request = people paris_dated_request"
    by (simp add: paris_request_def paris_dated_request_def)
  have h3: "budget paris_request = budget paris_dated_request"
    by (simp add: paris_request_def paris_dated_request_def)
  have h4: "experienceType paris_request = experienceType paris_dated_request"
    by (simp add: paris_request_def paris_dated_request_def)
  have g: "generateMockTripPlan half_source 0 paris_request = Inr paris_plan"
    by (rule paris_plan_Inr)
  from date_never_matters[of paris_request paris_dated_request half_source 0] h1 h2 h3 h4
  have "generateMockTripPlan half_source 0 paris_request =
        generateMockTripPlan half_source 0 paris_dated_request" by blast
  with g have g': "generateMockTripPlan half_source 0 paris_dated_request = Inr paris_plan" by simp
  have k1: "destination paris_request \<noteq> destination rome_request"
    by (simp add: paris_request_def rome_request_def)
  have k2: "date paris_request \<noteq> date rome_request"
    by (simp add: paris_request_def rome_request_def)
  have k3: "budget paris_request = budget rome_request"
    by (simp add: paris_request_def rome_request_def)
  from date_never_matters[of paris_request rome_request half_source 0 undefined mixed_source 7] k3
  obtain p q where "generateMockTripPlan half_source 0 paris_request = Inr p"
    and q: "generateMockTripPlan mixed_source 7 rome_request = Inr q"
    and "totalDays p = totalDays q" by blast
  with g have "totalDays q = totalDays paris_plan" by simp
  with q have c: "totalDays (projr (generateMockTripPlan mixed_source 7 rome_request)) =
                  totalDays paris_plan" by simp
  show ?thesis
    by (intro conjI) (rule d h1 h2 h3 h4 g' g k1 k2 k3 c)+
qed

subsection \<open>C10: the fifth activity repeats the first\<close>

text \<open>
  C10. For every experience level above 75, every day of the plan has 5 activities, every
  candidate list has exactly 4 names, and slot \<open>i\<close> takes candidate \<open>i mod 4\<close>: the first and
  the fifth activity of a day have the same name, \<open>Private\<close>, a space and the first
  candidate of the day's theme.
\<close>

theorem fifth_activity_repeats_first:
  assumes "75 < experienceType f"
    and "generateMockTripPlan rnd n f = Inr plan"
    and "dp \<in> set (dayPlans plan)"
  shows "length (activities dp) = 5 \<and>
         length (baseActivities dest th) = 4 \<and>
         name (activities dp ! 0) = ''Private '' @ baseActivity (destination f) (theme dp) 0 \<and>
         name (activities dp ! 4) = ''Private '' @ baseActivity (destination f) (theme dp) 4 \<and>
         baseActivity (destination f) (theme dp) 4 = baseActivity (destination f) (theme dp) 0 \<and>
         name (activities dp ! 4) = name (activities dp ! 0)"
proof -
  let ?e = "experienceType f"
  from plan_day_cases[OF assms(2,3)] obtain k n' where
    dp: "dp = fst (newDayPlan rnd (destination f) ?e (luxuryMultiplier ?e) k n')"
    by blast
  have cnt: "activityCount ?e = 5" using assms(1) by (simp add: activityCount_def)
  have len: "length (activities dp) = 5" unfolding dp by (simp add: newDayPlan_length cnt)
  have names: "map name (activities dp) =
      map (\<lambda>i. generateActivityName (destination f) (theme dp) i ?e) [0..<5]"
    unfolding dp using newDayPlan_names[of rnd "destination f" ?e "luxuryMultiplier ?e" k n']
    by (simp only: cnt)
  have n0: "name (activities dp ! 0) = generateActivityName (destination f) (theme dp) 0 ?e"
    by (rule names_nth[OF names]) simp
  have n4: "name (activities dp ! 4) = generateActivityName (destination f) (theme dp) 4 ?e"
    by (rule names_nth[OF names]) simp
  have base: "baseActivity (destination f) (theme dp) 4 = baseActivity (destination f) (theme dp) 0"
    by (simp add: baseActivity_def baseActivities_length)
  have p0: "name (activities dp ! 0) = ''Private '' @ baseActivity (destination f) (theme dp) 0"
    unfolding n0 using assms(1) by (simp add: generateActivityName_def)
  have p4: "name (activities dp ! 4) = ''Private '' @ baseActivity (destination f) (theme dp) 4"
    unfolding n4 using assms(1) by (simp add: generateActivityName_def)
  from p0 p4 base have eq: "name (activities dp ! 4) = name (activities dp ! 0)" by simp
  from len baseActivities_length[of dest th] p0 p4 base eq show ?thesis by blast
qed

theorem fifth_activity_repeats_first_witness:
  "75 < experienceType (request_at 80) \<and>
   generateMockTripPlan mixed_source 0 (request_at 80) = Inr (plan_at 80) \<and>
   hd (dayPlans (plan_at 80)) \<in> set (dayPlans (plan_at 80)) \<and>
   map name (activities (hd (dayPlans (plan_at 80)))) =
     [''Private Goa Walking Tour'', ''Private Historic City Center Visit'',
      ''Private Local Orientation & Welcome Dinner'', ''Private Sunset Viewpoint Tour'',
      ''Private Goa Walking Tour''] \<and>
   length (activities (hd (dayPlans (plan_at 80)))) = 5 \<and>
   name (activities (hd (dayPlans (plan_at 80))) ! 4) =
     name (activities (hd (dayPlans (plan_at 80))) ! 0)"
proof -
  have h1: "75 < experienceType (request_at 80)" by (simp add: request_at_def)
  have g: "generateMockTripPlan mixed_source 0 (request_at 80) = Inr (plan_at 80)"
    by (rule plan_at_Inr)
  have v: "map name (activities (hd (dayPlans (plan_at 80)))) =
     [''Private Goa Walking Tour'', ''Private Historic City Center Visit'',
      ''Private Local Orientation & Welcome Dinner'', ''Private Sunset Viewpoint Tour'',
      ''Private Goa Walking Tour'']" by (rule plan_at_names_80)
  have mem: "hd (dayPlans (plan_at 80)) \<in> set (dayPlans (plan_at 80))"
    by (rule plan_at_first_day)
  note r = fifth_activity_repeats_first[OF h1 g mem]
  from r have c1: "length (activities (hd (dayPlans (plan_at 80)))) = 5" by blast
  from r have c2: "name (activities (hd (dayPlans (plan_at 80))) ! 4) =
     name (activities (hd (dayPlans (plan_at 80))) ! 0)" by blast
  from h1 g mem v c1 c2 show ?thesis by blast
qed

end
